theory Spec2Isabelle
  imports Main "HOL-Library.List_Lexorder" "HOL-Library.Product_Lexorder" "HOL-Library.AList"
begin

section \<open>Python values used by fetch\_anniv.py\<close>

text \<open>
  A Python \<open>str\<close> is a sequence of Unicode code points, so it is modelled as a list of
  natural numbers (a well-formed string has every element below \<open>0x110000\<close>).
  \<open>len\<close> is \<open>length\<close>, \<open>+\<close> is \<open>@\<close>, comparison is the lexicographic order on code
  points, which is the order of \<open>HOL-Library.List_Lexorder\<close>.
\<close>

type_synonym pystr = "nat list"

definition ascii :: "string \<Rightarrow> pystr" where
  "ascii s = map of_char s"

text \<open>\<open>str(i)\<close> for a Python \<open>int\<close> (unbounded): decimal digits, a minus sign first.\<close>

fun nat_digits :: "nat \<Rightarrow> pystr" where
  "nat_digits n = (if n < 10 then [48 + n] else nat_digits (n div 10) @ [48 + n mod 10])"

declare nat_digits.simps [simp del]

definition str_int :: "int \<Rightarrow> pystr" where
  "str_int i = (if i < 0 then 45 # nat_digits (nat (- i)) else nat_digits (nat i))"

text \<open>
  The format specification \<open>02d\<close> of \<open>f"{month:02d}"\<close>: the decimal text, padded on the left
  with zeros to width two. A negative number already has width two with its sign, and a
  number of three digits or more is not shortened.
\<close>

definition fmt_02d :: "int \<Rightarrow> pystr" where
  "fmt_02d i = (let s = str_int i in replicate (2 - length s) 48 @ s)"

text \<open>\<open>sep.join(xs)\<close>.\<close>

fun py_join :: "pystr \<Rightarrow> pystr list \<Rightarrow> pystr" where
  "py_join sep [] = []"
| "py_join sep [x] = x"
| "py_join sep (x # y # ys) = x @ sep @ py_join sep (y # ys)"

text \<open>
  \<open>str.strip()\<close> removes the characters for which \<open>str.isspace\<close> holds from both ends.
  The set is the one of CPython's Unicode database: U+0009..U+000D, U+001C..U+0020, U+0085,
  U+00A0, U+1680, U+2000..U+200A, U+2028, U+2029, U+202F, U+205F, U+3000.
\<close>

definition isspace :: "nat \<Rightarrow> bool" where
  "isspace c =
     ((9 \<le> c \<and> c \<le> 13) \<or> (28 \<le> c \<and> c \<le> 32) \<or> c = 133 \<or> c = 160 \<or> c = 5760 \<or>
      (8192 \<le> c \<and> c \<le> 8202) \<or> c = 8232 \<or> c = 8233 \<or> c = 8239 \<or> c = 8287 \<or> c = 12288)"

definition py_strip :: "pystr \<Rightarrow> pystr" where
  "py_strip s = rev (dropWhile isspace (rev (dropWhile isspace s)))"


subsection \<open>Exceptions\<close>

text \<open>
  The exceptions that the program can meet, as values. All of them are subclasses of
  \<open>Exception\<close>. \<open>JSONDecodeError\<close> is what \<open>response.json()\<close> raises on a body that is
  not JSON; \<open>RequestException msg\<close> is any exception of \<open>requests.exceptions\<close> with
  \<open>str(e) = msg\<close>; \<open>OtherException msg\<close> is any further subclass of \<open>Exception\<close>.

  The message of a library exception is text that the library composes: fixed English
  templates, the URL, the reason phrase of the status line (which the HTTP client decodes
  as ISO-8859-1) and the messages of the operating system. It is modelled as a \<open>string\<close>
  of characters up to U+00FF; \<open>ascii\<close> gives its code points.
\<close>

datatype py_exn =
    JSONDecodeError
  | RequestException string
  | OtherException string
  | OverflowError
  | ZeroDivisionError
  | KeyError pystr
  | UnicodeEncodeError

subsection \<open>Encoding text for the console and for files\<close>

text \<open>
  Both output files are opened with \<open>encoding='utf-8'\<close>, and the console is taken to be a
  UTF-8 console with the default strict error handling (the program prints Japanese text
  and the marks U+2713 and U+2717 throughout). UTF-8 encodes every code point of a \<open>str\<close>
  but the surrogates U+D800..U+DFFF, which \<open>json.loads\<close> can produce from an escape such
  as backslash, \<open>ud800\<close>. \<open>print(s)\<close> and \<open>f.write(s)\<close> raise \<open>UnicodeEncodeError\<close> on a string with a
  surrogate, and nothing of that string is written.
\<close>

definition is_surrogate :: "nat \<Rightarrow> bool" where
  "is_surrogate c = (55296 \<le> c \<and> c \<le> 57343)"

definition utf8_encodable :: "pystr \<Rightarrow> bool" where
  "utf8_encodable s = list_all (\<lambda>c. \<not> is_surrogate c) s"

definition py_print :: "pystr \<Rightarrow> py_exn + unit" where
  "py_print s = (if utf8_encodable s then Inr () else Inl UnicodeEncodeError)"

definition file_write :: "pystr \<Rightarrow> py_exn + unit" where
  "file_write s = (if utf8_encodable s then Inr () else Inl UnicodeEncodeError)"

text \<open>
  A sequence of \<open>print\<close> calls: the outcome, and the lines that were printed before the
  first one that raised.
\<close>

fun print_all :: "pystr list \<Rightarrow> (py_exn + unit) \<times> pystr list" where
  "print_all [] = (Inr (), [])"
| "print_all (line # rest) =
     (case py_print line of
        Inl e \<Rightarrow> (Inl e, [])
      | Inr u \<Rightarrow> (fst (print_all rest), line # snd (print_all rest)))"

subsection \<open>Parsed JSON\<close>

text \<open>
  What \<open>json.loads\<close> builds: \<open>None\<close>, \<open>bool\<close>, \<open>int\<close>, \<open>float\<close>, \<open>str\<close>, \<open>list\<close> and \<open>dict\<close>
  with \<open>str\<close> keys. A \<open>dict\<close> keeps its keys in insertion order, so it is an association
  list; a well-formed one has distinct keys.

  IEEE doubles are not modelled. A finite \<open>float\<close> is represented by the two observations
  this program makes of it: the text of its \<open>repr\<close> and whether it is different from zero.
\<close>

datatype pyfloat = PyFinite pystr bool | PyNaN | PyInf | PyNegInf

datatype json =
    JNull
  | JBool bool
  | JInt int
  | JFloat pyfloat
  | JStr pystr
  | JList "json list"
  | JDict "(pystr \<times> json) list"

text \<open>The truth value of an object, as \<open>if item\<close> tests it.\<close>

fun truthy :: "json \<Rightarrow> bool" where
  "truthy JNull = False"
| "truthy (JBool b) = b"
| "truthy (JInt i) = (i \<noteq> 0)"
| "truthy (JFloat (PyFinite r nz)) = nz"
| "truthy (JFloat PyNaN) = True"
| "truthy (JFloat PyInf) = True"
| "truthy (JFloat PyNegInf) = True"
| "truthy (JStr s) = (s \<noteq> [])"
| "truthy (JList xs) = (xs \<noteq> [])"
| "truthy (JDict d) = (d \<noteq> [])"

fun repr_float :: "pyfloat \<Rightarrow> pystr" where
  "repr_float (PyFinite r nz) = r"
| "repr_float PyNaN = ascii ''nan''"
| "repr_float PyInf = ascii ''inf''"
| "repr_float PyNegInf = ascii ''-inf''"

text \<open>Lower-case hexadecimal with a fixed number of digits, for the escapes.\<close>

definition hex_digit :: "nat \<Rightarrow> nat" where
  "hex_digit n = (if n < 10 then 48 + n else 87 + n)"

definition hex_fixed :: "nat \<Rightarrow> nat \<Rightarrow> pystr" where
  "hex_fixed k n = map (\<lambda>i. hex_digit ((n div 16 ^ i) mod 16)) (rev [0..<k])"

text \<open>
  \<open>repr\<close> of a \<open>str\<close>, after CPython's \<open>unicode_repr\<close>. The quote is \<open>'\<close> unless the string
  has a \<open>'\<close> and no \<open>"\<close>. Which code points from U+007F on are printable is a table of the
  Unicode database; it is the parameter \<open>isprintable\<close>.
\<close>

definition repr_quote :: "pystr \<Rightarrow> nat" where
  "repr_quote s = (if 39 \<in> set s \<and> 34 \<notin> set s then 34 else 39)"

definition repr_char :: "(nat \<Rightarrow> bool) \<Rightarrow> nat \<Rightarrow> nat \<Rightarrow> pystr" where
  "repr_char isprintable quote c =
     (if c = quote \<or> c = 92 then [92, c]
      else if c = 9 then [92, 116]
      else if c = 10 then [92, 110]
      else if c = 13 then [92, 114]
      else if c < 32 \<or> c = 127 then [92, 120] @ hex_fixed 2 c
      else if c < 127 then [c]
      else if \<not> isprintable c then
        (if c \<le> 255 then [92, 120] @ hex_fixed 2 c
         else if c \<le> 65535 then [92, 117] @ hex_fixed 4 c
         else [92, 85] @ hex_fixed 8 c)
      else [c])"

definition repr_str :: "(nat \<Rightarrow> bool) \<Rightarrow> pystr \<Rightarrow> pystr" where
  "repr_str isprintable s =
     (let quote = repr_quote s in [quote] @ concat (map (repr_char isprintable quote) s) @ [quote])"

text \<open>\<open>repr\<close> of a parsed JSON value; a list and a dict show the \<open>repr\<close> of their parts.\<close>

fun py_repr :: "(nat \<Rightarrow> bool) \<Rightarrow> json \<Rightarrow> pystr" where
  "py_repr pr JNull = ascii ''None''"
| "py_repr pr (JBool b) = (if b then ascii ''True'' else ascii ''False'')"
| "py_repr pr (JInt i) = str_int i"
| "py_repr pr (JFloat x) = repr_float x"
| "py_repr pr (JStr s) = repr_str pr s"
| "py_repr pr (JList xs) = ascii ''['' @ py_join (ascii '', '') (map (py_repr pr) xs) @ ascii '']''"
| "py_repr pr (JDict d) =
     ascii ''{'' @
     py_join (ascii '', '') (map (\<lambda>kv. repr_str pr (fst kv) @ ascii '': '' @ py_repr pr (snd kv)) d) @
     ascii ''}''"

text \<open>\<open>str\<close> is \<open>repr\<close> except on a \<open>str\<close>, which is returned as it is.\<close>

fun py_str :: "(nat \<Rightarrow> bool) \<Rightarrow> json \<Rightarrow> pystr" where
  "py_str pr (JStr s) = s"
| "py_str pr j = py_repr pr j"

text \<open>
  \<open>json.dumps(obj, ensure_ascii=False)\<close>: separators \<open>", "\<close> and \<open>": "\<close>; a string is
  quoted with \<open>"\<close>, and only \<open>"\<close>, the backslash and the control characters below U+0020 are escaped.
\<close>

definition json_escape_char :: "nat \<Rightarrow> pystr" where
  "json_escape_char c =
     (if c = 34 then [92, 34]
      else if c = 92 then [92, 92]
      else if c = 10 then [92, 110]
      else if c = 13 then [92, 114]
      else if c = 9 then [92, 116]
      else if c = 8 then [92, 98]
      else if c = 12 then [92, 102]
      else if c < 32 then [92, 117] @ hex_fixed 4 c
      else [c])"

definition encode_basestring :: "pystr \<Rightarrow> pystr" where
  "encode_basestring s = [34] @ concat (map json_escape_char s) @ [34]"

fun dumps_float :: "pyfloat \<Rightarrow> pystr" where
  "dumps_float (PyFinite r nz) = r"
| "dumps_float PyNaN = ascii ''NaN''"
| "dumps_float PyInf = ascii ''Infinity''"
| "dumps_float PyNegInf = ascii ''-Infinity''"

fun json_dumps :: "json \<Rightarrow> pystr" where
  "json_dumps JNull = ascii ''null''"
| "json_dumps (JBool b) = (if b then ascii ''true'' else ascii ''false'')"
| "json_dumps (JInt i) = str_int i"
| "json_dumps (JFloat x) = dumps_float x"
| "json_dumps (JStr s) = encode_basestring s"
| "json_dumps (JList xs) = ascii ''['' @ py_join (ascii '', '') (map json_dumps xs) @ ascii '']''"
| "json_dumps (JDict d) =
     ascii ''{'' @
     py_join (ascii '', '') (map (\<lambda>kv. encode_basestring (fst kv) @ ascii '': '' @ json_dumps (snd kv)) d) @
     ascii ''}''"

section \<open>The HTTP library\<close>

text \<open>
  A \<open>requests.Response\<close>, by the attributes the program reads: \<open>status_code\<close>, \<open>reason\<close>
  and \<open>url\<close> (read by \<open>raise_for_status\<close>), the decoded body \<open>response.text\<close> (field
  \<open>body_text\<close>) and the outcome of calling \<open>response.json()\<close> (field \<open>json_result\<close>):
  the parsed value, or the exception that the call raises. The JSON parser itself is
  the library's and is not modelled.
\<close>

record response =
  status_code :: int
  reason :: string
  url :: string
  body_text :: pystr
  json_result :: "py_exn + json"

text \<open>
  \<open>Response.raise_for_status()\<close> of \<open>requests\<close>: an \<open>HTTPError\<close> (a \<open>RequestException\<close>)
  for a status from 400 to 599, and nothing for any other status.
\<close>

definition dec_string :: "int \<Rightarrow> string" where
  "dec_string i = map char_of (str_int i)"

definition raise_for_status :: "response \<Rightarrow> py_exn + unit" where
  "raise_for_status r =
     (if 400 \<le> status_code r \<and> status_code r < 500 then
        Inl (RequestException
          (dec_string (status_code r) @ '' Client Error: '' @ reason r @ '' for url: '' @ url r))
      else if 500 \<le> status_code r \<and> status_code r < 600 then
        Inl (RequestException
          (dec_string (status_code r) @ '' Server Error: '' @ reason r @ '' for url: '' @ url r))
      else Inr ())"

text \<open>
  One call \<open>requests.get(url, timeout=15)\<close> either raises a \<open>RequestException\<close> (connection
  error, timeout, ...) with a message, or returns a response. The network is a
  parameter of the model: a function from the state of the outside world and the URL to the
  outcome of the call and the next state of the world, so that a server may answer the
  same URL differently each time.
\<close>

datatype get_outcome = GetRaises string | GetReturns response

type_synonym 'w network = "'w \<Rightarrow> pystr \<Rightarrow> get_outcome \<times> 'w"

section \<open>class AnniversaryFetcher\<close>

text \<open>
  The fields that \<open>__init__\<close> sets. \<open>data\<close> is a \<open>dict\<close>: an association list in insertion
  order, written with \<open>AList.update\<close>, which replaces the value of a key that is there and
  appends a new key at the end, as \<open>d[k] = v\<close> does. The field \<open>delay\<close> is only passed to
  \<open>time.sleep\<close> and printed. The model is of a fetcher with a finite delay that is not
  negative, such as the 1.0 of \<open>main\<close>: then \<open>time.sleep\<close> returns and the estimate printed
  at the start is defined. Waiting is not modelled, and of the console output of the fetch
  loop only what can make a \<open>print\<close> raise.
\<close>

record fetcher =
  base_url :: pystr
  data :: "(pystr \<times> pystr) list"
  errors :: "pystr list"
  success_count :: int

definition AnniversaryFetcher_init :: fetcher where
  "AnniversaryFetcher_init =
     \<lparr>base_url = ascii ''https://api.whatistoday.cyou/index.cgi/v3/anniv'',
      data = [], errors = [], success_count = 0\<rparr>"

subsection \<open>extract\_anniversary\_text\<close>

definition candidate_keys :: "pystr list" where
  "candidate_keys =
     [ascii ''events'', ascii ''data'', ascii ''anniv'', ascii ''anniversaries'', ascii ''items'']"

text \<open>
  \<open>names = [str(item) for item in items if item]\<close> and \<open>sep.join(names)\<close>, where the
  separator is the one character U+3001.
\<close>

definition join_names :: "(nat \<Rightarrow> bool) \<Rightarrow> json list \<Rightarrow> pystr" where
  "join_names pr items = py_join [12289] (map (py_str pr) (filter truthy items))"

text \<open>
  The \<open>for key in [...]\<close> loop over a \<open>dict\<close>: it returns at the first key that is in the
  dict; \<open>None\<close> stands for falling out of the loop.
\<close>

fun scan_keys :: "(nat \<Rightarrow> bool) \<Rightarrow> pystr list \<Rightarrow> (pystr \<times> json) list \<Rightarrow> pystr option" where
  "scan_keys pr [] json_data = None"
| "scan_keys pr (key # keys) json_data =
     (case map_of json_data key of
        Some items \<Rightarrow>
          Some (case items of JList xs \<Rightarrow> join_names pr xs | _ \<Rightarrow> py_str pr items)
      | None \<Rightarrow> scan_keys pr keys json_data)"

text \<open>
  The body of the \<open>try\<close> block: it raises what \<open>response.json()\<close> raises; \<open>str\<close>,
  \<open>join\<close> and \<open>json.dumps\<close> do not raise on a parsed JSON value.
\<close>

definition extract_try :: "(nat \<Rightarrow> bool) \<Rightarrow> response \<Rightarrow> py_exn + pystr" where
  "extract_try pr r =
     (case json_result r of
        Inl e \<Rightarrow> Inl e
      | Inr json_data \<Rightarrow>
          Inr (case json_data of
                 JList xs \<Rightarrow> join_names pr xs
               | JDict d \<Rightarrow>
                   (case scan_keys pr candidate_keys d of
                      Some t \<Rightarrow> t
                    | None \<Rightarrow> json_dumps json_data)
               | _ \<Rightarrow> py_str pr json_data))"

text \<open>
  The two handlers: \<open>except json.JSONDecodeError\<close> and \<open>except Exception\<close>. Both return
  \<open>response.text.strip()\<close>; the second prints a diagnostic first.
\<close>

definition extract_anniversary_text :: "(nat \<Rightarrow> bool) \<Rightarrow> response \<Rightarrow> py_exn + pystr" where
  "extract_anniversary_text pr r =
     (case extract_try pr r of
        Inr t \<Rightarrow> Inr t
      | Inl JSONDecodeError \<Rightarrow> Inr (py_strip (body_text r))
      | Inl e \<Rightarrow> Inr (py_strip (body_text r)))"

subsection \<open>fetch\_single\_date\<close>

definition date_key_of :: "int \<Rightarrow> int \<Rightarrow> pystr" where
  "date_key_of month day = fmt_02d month @ ascii ''-'' @ fmt_02d day"

definition mmdd_of :: "int \<Rightarrow> int \<Rightarrow> pystr" where
  "mmdd_of month day = fmt_02d month @ fmt_02d day"

text \<open>
  The body of the \<open>try\<close> block up to the extracted text: the request, \<open>raise_for_status\<close>,
  the extraction.
\<close>

definition fetch_try :: "(nat \<Rightarrow> bool) \<Rightarrow> get_outcome \<Rightarrow> py_exn + pystr" where
  "fetch_try pr outcome =
     (case outcome of
        GetRaises msg \<Rightarrow> Inl (RequestException msg)
      | GetReturns r \<Rightarrow>
          (case raise_for_status r of
             Inl e \<Rightarrow> Inl e
           | Inr u \<Rightarrow> extract_anniversary_text pr r))"

text \<open>
  The progress line of a successful fetch shows the text cut to 50 characters:
  \<open>anniversary_text[:50] + "..." if len(anniversary_text) > 50 else anniversary_text\<close>. The
  two lines start with the marks U+2713 and U+2717 and a space.
\<close>

definition display_text :: "pystr \<Rightarrow> pystr" where
  "display_text anniversary_text =
     (if length anniversary_text > 50 then take 50 anniversary_text @ ascii ''...''
      else anniversary_text)"

definition mark_ok :: pystr where
  "mark_ok = [10003, 32]"

definition mark_failed :: pystr where
  "mark_failed = [10007, 32]"

text \<open>
  The method updates the fetcher and returns \<open>True\<close> or \<open>False\<close>, or it raises. The result
  is the outcome (the exception raised or the value returned) together with the fetcher
  and the world as the method leaves them: an exception that is not a \<open>RequestException\<close>
  leaves the method, and what was assigned before it stays assigned. On the successful
  path the store is written first, then the progress line is printed, then the success
  counter is incremented; on the failed path the failure is appended and the store
  written before the line is printed.
\<close>

definition fetch_single_date ::
  "(nat \<Rightarrow> bool) \<Rightarrow> 'w network \<Rightarrow> int \<Rightarrow> int \<Rightarrow> fetcher \<times> 'w \<Rightarrow> (py_exn + bool) \<times> fetcher \<times> 'w" where
  "fetch_single_date pr net month day s =
     (let self = fst s;
          date_key = date_key_of month day;
          request = net (snd s) (base_url self @ ascii ''/'' @ mmdd_of month day)
      in case fetch_try pr (fst request) of
           Inr anniversary_text \<Rightarrow>
             (let stored = self\<lparr>data := AList.update date_key anniversary_text (data self)\<rparr>
              in case py_print (mark_ok @ date_key @ ascii '': '' @ display_text anniversary_text) of
                   Inl x \<Rightarrow> (Inl x, stored, snd request)
                 | Inr u \<Rightarrow>
                     (Inr True, stored\<lparr>success_count := success_count stored + 1\<rparr>, snd request))
         | Inl (RequestException e) \<Rightarrow>
             (let error_msg = date_key @ ascii '': '' @ ascii e;
                  recorded = self\<lparr>errors := errors self @ [error_msg],
                                  data := AList.update date_key [] (data self)\<rparr>
              in case py_print (mark_failed @ error_msg) of
                   Inl x \<Rightarrow> (Inl x, recorded, snd request)
                 | Inr u \<Rightarrow> (Inr False, recorded, snd request))
         | Inl e \<Rightarrow> (Inl e, self, snd request))"

subsection \<open>fetch\_all\_365\_days\<close>

text \<open>
  \<open>datetime.date\<close> and \<open>current_date += timedelta(days=1)\<close>: the next day of the proleptic
  Gregorian calendar, and \<open>OverflowError\<close> after 9999-12-31.
\<close>

record date =
  year :: int
  month :: int
  day :: int

definition is_leap :: "int \<Rightarrow> bool" where
  "is_leap y = (y mod 4 = 0 \<and> (y mod 100 \<noteq> 0 \<or> y mod 400 = 0))"

definition days_in_month :: "int \<Rightarrow> int \<Rightarrow> int" where
  "days_in_month y m =
     (if m = 2 then (if is_leap y then 29 else 28)
      else if m = 4 \<or> m = 6 \<or> m = 9 \<or> m = 11 then 30
      else 31)"

definition add_one_day :: "date \<Rightarrow> py_exn + date" where
  "add_one_day d =
     (if day d < days_in_month (year d) (month d) then Inr (d\<lparr>day := day d + 1\<rparr>)
      else if month d < 12 then Inr \<lparr>year = year d, month = month d + 1, day = 1\<rparr>
      else if year d < 9999 then Inr \<lparr>year = year d + 1, month = 1, day = 1\<rparr>
      else Inl OverflowError)"

text \<open>
  The end of the loop body: \<open>current_date += timedelta(days=1)\<close>, and once more when the
  date is then February 29.
\<close>

definition advance :: "date \<Rightarrow> py_exn + date" where
  "advance current_date =
     (case add_one_day current_date of
        Inl e \<Rightarrow> Inl e
      | Inr d1 \<Rightarrow> (if month d1 = 2 \<and> day d1 = 29 then add_one_day d1 else Inr d1))"

text \<open>
  The \<open>for i in range(365)\<close> loop, with the number of iterations still to run as its
  numeric argument (\<open>i\<close> itself is only used for the progress display and the wait). The
  value returned by \<open>fetch_single_date\<close> is not used by the loop; an exception ends it. The
  progress block printed every 30 dates is fixed text and numbers.
\<close>

fun fetch_loop ::
  "(nat \<Rightarrow> bool) \<Rightarrow> 'w network \<Rightarrow> nat \<Rightarrow> date \<Rightarrow> fetcher \<times> 'w \<Rightarrow> (py_exn + unit) \<times> fetcher \<times> 'w" where
  "fetch_loop pr net 0 current_date s = (Inr (), s)"
| "fetch_loop pr net (Suc n) current_date s =
     (case fetch_single_date pr net (month current_date) (day current_date) s of
        (Inl e, s1) \<Rightarrow> (Inl e, s1)
      | (Inr ok, s1) \<Rightarrow>
          (case advance current_date of
             Inl e \<Rightarrow> (Inl e, s1)
           | Inr next_date \<Rightarrow> fetch_loop pr net n next_date s1))"

definition start_date :: date where
  "start_date = \<lparr>year = 2024, month = 1, day = 1\<rparr>"

text \<open>
  After the loop the method prints a summary: fixed text, the two counts and, when there
  are failures, the first three failure descriptions, each after two spaces, a hyphen and a
  space.
\<close>

definition summary_lines :: "fetcher \<Rightarrow> pystr list" where
  "summary_lines self = map (\<lambda>error. ascii ''  - '' @ error) (take 3 (errors self))"

definition fetch_all_365_days ::
  "(nat \<Rightarrow> bool) \<Rightarrow> 'w network \<Rightarrow> fetcher \<times> 'w \<Rightarrow> (py_exn + unit) \<times> fetcher \<times> 'w" where
  "fetch_all_365_days pr net s =
     (case fetch_loop pr net 365 start_date s of
        (Inl e, s1) \<Rightarrow> (Inl e, s1)
      | (Inr u, s1) \<Rightarrow> (fst (print_all (summary_lines (fst s1))), s1))"

section \<open>Console messages\<close>

text \<open>
  The Japanese texts of the \<open>print\<close> calls, as code points.
\<close>

text \<open>U+2713 (check mark), then \<open>CSV\<close> and "file saved: " in Japanese.\<close>

definition msg_csv_saved :: pystr where
  "msg_csv_saved =
     [10003, 32, 67, 83, 86, 12501, 12449, 12452, 12523, 20445, 23384, 58, 32]"

text \<open>U+2717 (ballot x), then \<open>CSV\<close> and "save error: " in Japanese.\<close>

definition msg_csv_error :: pystr where
  "msg_csv_error =
     [10007, 32, 67, 83, 86, 20445, 23384, 12456, 12521, 12540, 58, 32]"

text \<open>The same with \<open>JSON\<close>.\<close>

definition msg_json_saved :: pystr where
  "msg_json_saved =
     [10003, 32, 74, 83, 79, 78, 12501, 12449, 12452, 12523, 20445, 23384, 58, 32]"

text \<open>The same with \<open>JSON\<close>.\<close>

definition msg_json_error :: pystr where
  "msg_json_error =
     [10007, 32, 74, 83, 79, 78, 20445, 23384, 12456, 12521, 12540, 58, 32]"

text \<open>A line feed and the heading "statistics" between \<open>===\<close>.\<close>

definition stat_heading :: pystr where
  "stat_heading =
     [10, 61, 61, 61, 32, 32113, 35336, 24773, 22577, 32, 61, 61, 61]"

text \<open>"total days: ".\<close>

definition stat_total :: pystr where
  "stat_total =
     [32207, 26085, 25968, 58, 32]"

text \<open>"days with data: ".\<close>

definition stat_with_data :: pystr where
  "stat_with_data =
     [12487, 12540, 12479, 21462, 24471, 25104, 21151, 58, 32]"

text \<open>"days without data: ".\<close>

definition stat_without_data :: pystr where
  "stat_without_data =
     [12487, 12540, 12479, 12394, 12375, 58, 32]"

text \<open>"rate: ".\<close>

definition stat_rate :: pystr where
  "stat_rate =
     [21462, 24471, 29575, 58, 32]"

text \<open>The counter word for days, U+65E5.\<close>

definition stat_days :: pystr where
  "stat_days =
     [26085]"



section \<open>Exporters\<close>

text \<open>
  \<open>self.data[date_key]\<close> raises \<open>KeyError\<close> on a key that is not in the dict.
\<close>

definition dict_get :: "(pystr \<times> 'v) list \<Rightarrow> pystr \<Rightarrow> py_exn + 'v" where
  "dict_get d k = (case map_of d k of None \<Rightarrow> Inl (KeyError k) | Some v \<Rightarrow> Inr v)"

text \<open>
  \<open>open\<close> either succeeds or raises an \<open>IOError\<close> with a message; which of the two happens
  is a parameter. The model of a file is the text that was written to it, and \<open>None\<close>
  when it was not opened. A file name is a \<open>string\<close>, as the two default names are.
\<close>

datatype file_io = WriteOk | WriteFails string

subsection \<open>save\_to\_csv\<close>

text \<open>
  \<open>csv.writer(f).writerow(row)\<close> with the default dialect: fields joined by a comma, the
  row ended by CR LF; a field that has a comma, a double quote, a CR or a LF is put
  between double quotes with its double quotes doubled; a row that is one empty field is
  written as two double quotes.
\<close>

definition csv_field :: "pystr \<Rightarrow> pystr" where
  "csv_field field =
     (if list_ex (\<lambda>c. c = 44 \<or> c = 34 \<or> c = 13 \<or> c = 10) field
      then [34] @ concat (map (\<lambda>c. if c = 34 then [34, 34] else [c]) field) @ [34]
      else field)"

definition csv_writerow :: "pystr list \<Rightarrow> pystr" where
  "csv_writerow row =
     (if row = [[]] then [34, 34, 13, 10] else py_join [44] (map csv_field row) @ [13, 10])"

definition csv_text :: "pystr list list \<Rightarrow> pystr" where
  "csv_text rows = concat (map csv_writerow rows)"

text \<open>
  The \<open>for date_key in sorted(self.data.keys())\<close> loop. Each \<open>writerow\<close> hands the text of
  its row to the file in one \<open>write\<close>. The result is the outcome and the rows that were
  written before the loop ended.
\<close>

fun csv_write_rows ::
  "(pystr \<times> pystr) list \<Rightarrow> pystr list \<Rightarrow> (py_exn + unit) \<times> pystr list list" where
  "csv_write_rows d [] = (Inr (), [])"
| "csv_write_rows d (date_key # ks) =
     (case dict_get d date_key of
        Inl e \<Rightarrow> (Inl e, [])
      | Inr v \<Rightarrow>
          (case file_write (csv_writerow [date_key, v]) of
             Inl e \<Rightarrow> (Inl e, [])
           | Inr u \<Rightarrow> (fst (csv_write_rows d ks), [date_key, v] # snd (csv_write_rows d ks))))"

text \<open>
  The result is the outcome, the file as the method leaves it (\<open>None\<close> when it was not
  opened) and the lines printed on the console. An \<open>IOError\<close> is caught and reported. A
  \<open>UnicodeEncodeError\<close> or a \<open>KeyError\<close> is not an \<open>IOError\<close>: it leaves the method, and the
  \<open>with\<close> statement closes the file with the rows written so far. The two messages are
  fixed text followed by the file name or by the message of the \<open>IOError\<close>.
\<close>

definition save_to_csv ::
  "file_io \<Rightarrow> string \<Rightarrow> fetcher \<Rightarrow> (py_exn + unit) \<times> pystr option \<times> pystr list" where
  "save_to_csv io filename self =
     (case io of
        WriteFails e \<Rightarrow> (Inr (), None, [msg_csv_error @ ascii e])
      | WriteOk \<Rightarrow>
          (let header = [ascii ''date'', ascii ''name'']
           in case file_write (csv_writerow header) of
                Inl e \<Rightarrow> (Inl e, Some [], [])
              | Inr u \<Rightarrow>
                  (let written = csv_write_rows (data self) (sort (map fst (data self)));
                       file = Some (csv_text (header # snd written))
                   in case fst written of
                        Inl e \<Rightarrow> (Inl e, file, [])
                      | Inr u \<Rightarrow> (Inr (), file, [msg_csv_saved @ ascii filename]))))"

text \<open>The number of lines of a text: its line feeds (each row written ends with CR LF).\<close>

definition line_count :: "pystr \<Rightarrow> nat" where
  "line_count t = length (filter (\<lambda>c. c = 10) t)"

subsection \<open>save\_to\_json\<close>

text \<open>\<open>dict(items)\<close>: the pairs are inserted from left to right.\<close>

definition dict_of_items :: "(pystr \<times> 'v) list \<Rightarrow> (pystr \<times> 'v) list" where
  "dict_of_items items = foldl (\<lambda>d kv. AList.update (fst kv) (snd kv) d) [] items"

definition sorted_data :: "fetcher \<Rightarrow> (pystr \<times> pystr) list" where
  "sorted_data self = dict_of_items (sort (data self))"

text \<open>
  \<open>json.dump(d, f, ensure_ascii=False, indent=2)\<close> for a dict from \<open>str\<close> to \<open>str\<close>: one
  member per line, indented by two spaces, the item separator a comma. With an indent the
  encoder yields the text in chunks, and \<open>json.dump\<close> hands each chunk to the file in one
  \<open>write\<close>: the opening brace, the line break with the indent, then for every member the
  separator (but for the first), the key, the colon with a space, the value, and at the end
  the line break and the closing brace. An empty dict is the one chunk of two braces.
\<close>

fun json_member_chunks :: "bool \<Rightarrow> (pystr \<times> pystr) list \<Rightarrow> pystr list" where
  "json_member_chunks first [] = []"
| "json_member_chunks first (kv # rest) =
     (if first then [] else [[44, 10, 32, 32]]) @
     [encode_basestring (fst kv), ascii '': '', encode_basestring (snd kv)] @
     json_member_chunks False rest"

definition json_chunks_indent2 :: "(pystr \<times> pystr) list \<Rightarrow> pystr list" where
  "json_chunks_indent2 d =
     (if d = [] then [ascii ''{}'']
      else [ascii ''{'', [10, 32, 32]] @ json_member_chunks True d @ [[10], ascii ''}''])"

definition json_dump_indent2 :: "(pystr \<times> pystr) list \<Rightarrow> pystr" where
  "json_dump_indent2 d = concat (json_chunks_indent2 d)"

text \<open>Writing chunks one after the other: the outcome and the text that was written.\<close>

fun write_chunks :: "pystr list \<Rightarrow> (py_exn + unit) \<times> pystr" where
  "write_chunks [] = (Inr (), [])"
| "write_chunks (chunk # rest) =
     (case file_write chunk of
        Inl e \<Rightarrow> (Inl e, [])
      | Inr u \<Rightarrow> (fst (write_chunks rest), chunk @ snd (write_chunks rest)))"

definition save_to_json ::
  "file_io \<Rightarrow> string \<Rightarrow> fetcher \<Rightarrow> (py_exn + unit) \<times> pystr option \<times> pystr list" where
  "save_to_json io filename self =
     (case io of
        WriteFails e \<Rightarrow> (Inr (), None, [msg_json_error @ ascii e])
      | WriteOk \<Rightarrow>
          (let written = write_chunks (json_chunks_indent2 (sorted_data self))
           in case fst written of
                Inl e \<Rightarrow> (Inl e, Some (snd written), [])
              | Inr u \<Rightarrow> (Inr (), Some (snd written), [msg_json_saved @ ascii filename])))"

section \<open>Reporter\<close>

text \<open>
  Console output is the list of the strings printed, one per call of \<open>print\<close>.

  \<open>print_statistics\<close> divides two \<open>int\<close>s with \<open>/\<close>, which raises \<open>ZeroDivisionError\<close> on a zero
  divisor, after the first four lines are printed. The text of
  \<open>f"{(with_data/total*100):.1f}"\<close> is floating-point arithmetic and formatting; it is the
  parameter \<open>rate_text\<close>. All five lines are fixed text and numbers, so their \<open>print\<close>
  does not raise.
\<close>

definition print_statistics ::
  "(nat \<Rightarrow> nat \<Rightarrow> pystr) \<Rightarrow> fetcher \<Rightarrow> pystr list \<times> py_exn option" where
  "print_statistics rate_text self =
     (let total = length (data self);
          with_data = length (filter (\<lambda>v. py_strip v \<noteq> []) (map snd (data self)));
          out = [stat_heading,
                 stat_total @ str_int (int total) @ stat_days,
                 stat_with_data @ str_int (int with_data) @ stat_days,
                 stat_without_data @ str_int (int total - int with_data) @ stat_days]
      in if total = 0 then (out, Some ZeroDivisionError)
         else (out @ [stat_rate @ rate_text with_data total @ ascii ''%''], None))"

text \<open>
  \<open>def show_sample(self, count: int = 10)\<close>: the argument is \<open>None\<close> when the caller gives
  no count. \<open>sample_display\<close> is the expression
  \<open>name[:80] + "..." if len(name) > 80 else name\<close>. The method prints the heading and one
  line per entry; the result is the outcome and the lines printed.
\<close>

definition sample_display :: "pystr \<Rightarrow> pystr" where
  "sample_display name = (if length name > 80 then take 80 name @ ascii ''...'' else name)"



section \<open>Specification-side definitions\<close>

text \<open>
  The calendar of a non-leap year, written down independently of the loop: the twelve
  months with their lengths, every day of each month in order, and the key \<open>MM-DD\<close> of
  each day.
\<close>

definition month_lengths :: "(int \<times> int) list" where
  "month_lengths =
     [(1, 31), (2, 28), (3, 31), (4, 30), (5, 31), (6, 30),
      (7, 31), (8, 31), (9, 30), (10, 31), (11, 30), (12, 31)]"

definition non_leap_calendar :: "(int \<times> int) list" where
  "non_leap_calendar = concat (map (\<lambda>ml. map (\<lambda>d. (fst ml, d)) [1..snd ml]) month_lengths)"

definition calendar_keys :: "pystr list" where
  "calendar_keys = map (\<lambda>md. date_key_of (fst md) (snd md)) non_leap_calendar"

text \<open>The shape \<open>MM-DD\<close>: two decimal digits, a hyphen, two decimal digits.\<close>

definition is_digit :: "nat \<Rightarrow> bool" where
  "is_digit c = (48 \<le> c \<and> c \<le> 57)"

fun is_mm_dd :: "pystr \<Rightarrow> bool" where
  "is_mm_dd [a, b, c, d, e] = (is_digit a \<and> is_digit b \<and> c = 45 \<and> is_digit d \<and> is_digit e)"
| "is_mm_dd k = False"





section \<open>Auxiliary definitions for the proofs\<close>

text \<open>
  The dates that the loop passes to \<open>fetch_single_date\<close>: the loop with the fetch left
  out.
\<close>

fun loop_dates :: "nat \<Rightarrow> date \<Rightarrow> py_exn + (int \<times> int) list" where
  "loop_dates 0 current_date = Inr []"
| "loop_dates (Suc n) current_date =
     (case advance current_date of
        Inl e \<Rightarrow> Inl e
      | Inr next_date \<Rightarrow>
          (case loop_dates n next_date of
             Inl e \<Rightarrow> Inl e
           | Inr ds \<Rightarrow> Inr ((month current_date, day current_date) # ds)))"

text \<open>The fetches of a given list of dates, one after the other.\<close>

fun fetch_dates ::
  "(nat \<Rightarrow> bool) \<Rightarrow> 'w network \<Rightarrow> (int \<times> int) list \<Rightarrow> fetcher \<times> 'w \<Rightarrow> (py_exn + unit) \<times> fetcher \<times> 'w" where
  "fetch_dates pr net [] s = (Inr (), s)"
| "fetch_dates pr net (md # ds) s =
     (case fetch_single_date pr net (fst md) (snd md) s of
        (Inl e, s1) \<Rightarrow> (Inl e, s1)
      | (Inr ok, s1) \<Rightarrow> fetch_dates pr net ds s1)"

definition in_range :: "int \<times> int \<Rightarrow> bool" where
  "in_range md = (1 \<le> fst md \<and> fst md \<le> 12 \<and> 1 \<le> snd md \<and> snd md \<le> 31)"

text \<open>
  The invariant that links the failure list to the store: every failure description
  starts with a date key (five characters) whose entry is the empty string.
\<close>

definition failures_empty :: "fetcher \<Rightarrow> bool" where
  "failures_empty self = list_all (\<lambda>e. map_of (data self) (take 5 e) = Some []) (errors self)"

text \<open>Every failure description can be printed.\<close>

definition errors_encodable :: "fetcher \<Rightarrow> bool" where
  "errors_encodable self = list_all utf8_encodable (errors self)"

abbreviation key_of :: "int \<times> int \<Rightarrow> pystr" where
  "key_of md \<equiv> date_key_of (fst md) (snd md)"

text \<open>
  The fetcher of a fetch of the date with key \<open>date_key\<close>: after the store is written on
  the successful path, after the method has returned \<open>True\<close>, and on the failed path.
\<close>

definition fetch_stored :: "fetcher \<Rightarrow> pystr \<Rightarrow> pystr \<Rightarrow> fetcher" where
  "fetch_stored self date_key t = self\<lparr>data := AList.update date_key t (data self)\<rparr>"

definition fetch_ok :: "fetcher \<Rightarrow> pystr \<Rightarrow> pystr \<Rightarrow> fetcher" where
  "fetch_ok self date_key t =
     self\<lparr>data := AList.update date_key t (data self), success_count := success_count self + 1\<rparr>"

definition fetch_failed :: "fetcher \<Rightarrow> pystr \<Rightarrow> string \<Rightarrow> fetcher" where
  "fetch_failed self date_key e =
     self\<lparr>errors := errors self @ [date_key @ ascii '': '' @ ascii e],
          data := AList.update date_key [] (data self)\<rparr>"

text \<open>What one returning fetch of a new, well-formed date does to the fetcher.\<close>

definition one_more :: "fetcher \<Rightarrow> pystr \<Rightarrow> fetcher \<Rightarrow> bool" where
  "one_more f k f' =
     (map fst (data f') = map fst (data f) @ [k] \<and>
      success_count f' + int (length (errors f')) = success_count f + int (length (errors f)) + 1 \<and>
      failures_empty f' \<and> errors_encodable f' \<and> base_url f' = base_url f)"

text \<open>The rows of the CSV file that can be written: their text has no surrogate.\<close>

definition row_writable :: "pystr list \<Rightarrow> bool" where
  "row_writable row = utf8_encodable (csv_writerow row)"

text \<open>
  The message of the \<open>RequestException\<close> with which the request step of a fetch ends
  (\<open>requests.get\<close> followed by \<open>raise_for_status\<close>), if it ends with one.
\<close>

definition request_error :: "get_outcome \<Rightarrow> string option" where
  "request_error outcome =
     (case outcome of
        GetRaises msg \<Rightarrow> Some msg
      | GetReturns r \<Rightarrow>
          (case raise_for_status r of Inl (RequestException msg) \<Rightarrow> Some msg | _ \<Rightarrow> None))"

text \<open>What a fetch stores for a given outcome of the request.\<close>

definition stored_text :: "(nat \<Rightarrow> bool) \<Rightarrow> get_outcome \<Rightarrow> pystr" where
  "stored_text pr outcome = (case fetch_try pr outcome of Inr t \<Rightarrow> t | Inl e \<Rightarrow> [])"

text \<open>
  A complete run of \<open>main\<close> up to the CSV export: the fetch loop on a fresh fetcher, then
  \<open>save_to_csv()\<close> with a file system that accepts the file. The result is the number of
  lines of the file when both return, and \<open>None\<close> when one of them raises.
\<close>

definition csv_lines_after_run :: "(nat \<Rightarrow> bool) \<Rightarrow> 'w network \<Rightarrow> 'w \<Rightarrow> nat option" where
  "csv_lines_after_run pr net w0 =
     (case fetch_all_365_days pr net (AnniversaryFetcher_init, w0) of
        (Inl e, s) \<Rightarrow> None
      | (Inr u, s) \<Rightarrow>
          (case save_to_csv WriteOk ''anniversaries.csv'' (fst s) of
             (Inr u, Some t, lines) \<Rightarrow> Some (line_count t)
           | _ \<Rightarrow> None))"

section \<open>Sample inputs\<close>

text \<open>
  A table of printable code points for the examples (\<open>repr\<close> consults it from U+007F on),
  some responses, and some networks that answer every request in the same way.
\<close>

definition sample_printable :: "nat \<Rightarrow> bool" where
  "sample_printable c = (160 < c \<and> c \<noteq> 173)"

definition json_response :: "json \<Rightarrow> response" where
  "json_response j =
     \<lparr>status_code = 200, reason = ''OK'', url = [], body_text = [], json_result = Inr j\<rparr>"


definition multiple_choices_response :: response where
  "multiple_choices_response =
     \<lparr>status_code = 300, reason = ''Multiple Choices'', url = [],
      body_text = ascii ''choices'', json_result = Inl JSONDecodeError\<rparr>"

definition two_line_response :: response where
  "two_line_response =
     \<lparr>status_code = 200, reason = ''OK'', url = [],
      body_text = ascii ''New Year'' @ [10] @ ascii ''Ganjitsu'', json_result = Inl JSONDecodeError\<rparr>"


definition late_surrogate_response :: response where
  "late_surrogate_response = json_response (JList [JStr (replicate 50 97 @ [55296])])"

definition net_down :: "unit network" where
  "net_down w u = (GetRaises ''timeout'', w)"


definition net_late_surrogate :: "unit network" where
  "net_late_surrogate w u = (GetReturns late_surrogate_response, w)"

definition net_multiple_choices :: "unit network" where
  "net_multiple_choices w u = (GetReturns multiple_choices_response, w)"

definition net_two_lines :: "unit network" where
  "net_two_lines w u = (GetReturns two_line_response, w)"

text \<open>Two fetchers with the same store contents, inserted in different orders.\<close>

definition store_a :: fetcher where
  "store_a = AnniversaryFetcher_init
     \<lparr>data := [(ascii ''03-01'', ascii ''c''), (ascii ''01-02'', []), (ascii ''01-01'', ascii ''a'')]\<rparr>"

definition store_b :: fetcher where
  "store_b = AnniversaryFetcher_init
     \<lparr>data := [(ascii ''01-01'', ascii ''a''), (ascii ''01-02'', []), (ascii ''03-01'', ascii ''c'')]\<rparr>"



section \<open>Lemmas\<close>


subsection \<open>Date keys\<close>

lemma nat_digits_one: "n < 10 \<Longrightarrow> nat_digits n = [48 + n]"
  by (simp add: nat_digits.simps)

lemma nat_digits_two: "10 \<le> n \<Longrightarrow> n < 100 \<Longrightarrow> nat_digits n = [48 + n div 10, 48 + n mod 10]"
proof -
  assume a: "10 \<le> n" "n < 100"
  then have "n div 10 < 10" by simp
  then have "nat_digits (n div 10) = [48 + n div 10]" by (rule nat_digits_one)
  with a show ?thesis by (subst nat_digits.simps) simp
qed

lemma fmt_02d_two:
  assumes "0 \<le> n" "n < 100"
  shows "fmt_02d n = [48 + nat n div 10, 48 + nat n mod 10]"
proof (cases "nat n < 10")
  case True
  with assms show ?thesis
    by (simp add: fmt_02d_def str_int_def nat_digits_one)
next
  case False
  with assms have "10 \<le> nat n" "nat n < 100" by simp_all
  then have "nat_digits (nat n) = [48 + nat n div 10, 48 + nat n mod 10]"
    by (rule nat_digits_two)
  with assms show ?thesis
    by (simp add: fmt_02d_def str_int_def)
qed

lemma date_key_of_two:
  assumes "0 \<le> m" "m < 100" "0 \<le> d" "d < 100"
  shows "date_key_of m d =
    [48 + nat m div 10, 48 + nat m mod 10, 45, 48 + nat d div 10, 48 + nat d mod 10]"
  using assms by (simp add: date_key_of_def fmt_02d_two ascii_def)

lemma date_key_in_range:
  assumes "in_range md"
  shows "date_key_of (fst md) (snd md) =
    [48 + nat (fst md) div 10, 48 + nat (fst md) mod 10, 45,
     48 + nat (snd md) div 10, 48 + nat (snd md) mod 10]"
  using assms by (intro date_key_of_two) (simp_all add: in_range_def)

lemma length_date_key: "in_range md \<Longrightarrow> length (date_key_of (fst md) (snd md)) = 5"
  by (simp add: date_key_in_range)

lemma digit_bounds:
  fixes n :: nat
  shows "n < 100 \<Longrightarrow> n div 10 \<le> 9 \<and> n mod 10 \<le> 9"
  by presburger

lemma is_mm_dd_date_key:
  assumes "in_range md"
  shows "is_mm_dd (date_key_of (fst md) (snd md))"
proof -
  from assms have "nat (fst md) < 100" "nat (snd md) < 100"
    by (auto simp: in_range_def)
  then have "nat (fst md) div 10 \<le> 9 \<and> nat (fst md) mod 10 \<le> 9"
    and "nat (snd md) div 10 \<le> 9 \<and> nat (snd md) mod 10 \<le> 9"
    by (simp_all only: digit_bounds)
  then show ?thesis
    using assms by (simp add: date_key_in_range is_digit_def)
qed

lemma two_digit_less:
  fixes p q :: nat
  assumes "p < q"
  shows "p div 10 < q div 10 \<or> (p div 10 = q div 10 \<and> p mod 10 < q mod 10)"
proof -
  from assms have le: "p div 10 \<le> q div 10" by (simp add: div_le_mono)
  have p: "p = 10 * (p div 10) + p mod 10" and q: "q = 10 * (q div 10) + q mod 10"
    by simp_all
  show ?thesis
  proof (cases "p div 10 = q div 10")
    case True
    with p q assms have "p mod 10 < q mod 10" by linarith
    with True show ?thesis by simp
  next
    case False
    with le show ?thesis by simp
  qed
qed

lemma two_digit_pair_less:
  fixes p q u v :: nat
  assumes "p < q \<or> (p = q \<and> u < v)"
  shows "[48 + p div 10, 48 + p mod 10, 45, 48 + u div 10, 48 + u mod 10]
       < [48 + q div 10, 48 + q mod 10, 45, 48 + v div 10, 48 + v mod 10]"
  using assms two_digit_less [of p q] two_digit_less [of u v] by auto

lemma key_mono:
  assumes "in_range a" "in_range b" "fst a < fst b \<or> (fst a = fst b \<and> snd a < snd b)"
  shows "date_key_of (fst a) (snd a) < date_key_of (fst b) (snd b)"
proof -
  have "nat (fst a) < nat (fst b) \<or> (nat (fst a) = nat (fst b) \<and> nat (snd a) < nat (snd b))"
    using assms by (auto simp: in_range_def)
  then show ?thesis
    using assms(1,2) by (simp only: date_key_in_range two_digit_pair_less)
qed


subsection \<open>The calendar\<close>

lemma calendar_successive:
  "successively (\<lambda>a b. fst a < fst b \<or> (fst a = fst b \<and> snd a < snd b)) non_leap_calendar"
  by code_simp

lemma calendar_in_range: "list_all in_range non_leap_calendar"
  by code_simp

lemma length_calendar: "length non_leap_calendar = 365"
  by code_simp

lemma loop_dates_calendar: "loop_dates 365 start_date = Inr non_leap_calendar"
  by code_simp


lemma successively_keys:
  "list_all in_range ds \<Longrightarrow>
   successively (\<lambda>a b. fst a < fst b \<or> (fst a = fst b \<and> snd a < snd b)) ds \<Longrightarrow>
   successively (<) (map (\<lambda>md. date_key_of (fst md) (snd md)) ds)"
proof (induction ds rule: induct_list012)
  case (3 x y zs)
  then show ?case by (simp add: key_mono)
qed simp_all

lemma strict_sorted_keys: "sorted_wrt (<) calendar_keys"
proof -
  have "successively (<) calendar_keys"
    unfolding calendar_keys_def
    by (rule successively_keys [OF calendar_in_range calendar_successive])
  then show ?thesis
    by (simp add: successively_conv_sorted_wrt)
qed

lemma distinct_calendar_keys: "distinct calendar_keys"
  using strict_sorted_keys by (simp add: strict_sorted_iff)

lemma sorted_calendar_keys: "sorted calendar_keys"
  using strict_sorted_keys by (simp add: strict_sorted_iff)

lemma length_calendar_keys: "length calendar_keys = 365"
  by (simp add: calendar_keys_def length_calendar)

lemma mm_dd_calendar_keys: "list_all is_mm_dd calendar_keys"
  using calendar_in_range
  by (simp add: calendar_keys_def list_all_iff is_mm_dd_date_key)






subsection \<open>The extractor\<close>

lemma extract_total: "\<exists>t. extract_anniversary_text pr r = Inr t"
  by (simp add: extract_anniversary_text_def split: sum.splits py_exn.splits)












text \<open>The examples of the specification.\<close>

lemma extract_example_array:
  "extract_anniversary_text sample_printable
     (json_response (JList [JStr (ascii ''A''), JStr (ascii ''B''), JStr (ascii ''C'')])) =
   Inr (ascii ''A'' @ [12289] @ ascii ''B'' @ [12289] @ ascii ''C'')"
  by code_simp

lemma extract_example_events:
  "extract_anniversary_text sample_printable
     (json_response (JDict [(ascii ''events'', JList [JStr (ascii ''X''), JStr (ascii ''Y'')])])) =
   Inr (ascii ''X'' @ [12289] @ ascii ''Y'')"
  by code_simp

lemma extract_example_other_object:
  "extract_anniversary_text sample_printable
     (json_response (JDict [(ascii ''foo'', JStr (ascii ''bar''))])) =
   Inr (ascii ''{'' @ [34] @ ascii ''foo'' @ [34] @ ascii '': '' @ [34] @ ascii ''bar'' @ [34] @ ascii ''}'')"
  by code_simp

lemma extract_example_mixed:
  "extract_anniversary_text sample_printable
     (json_response (JDict [(ascii ''items'', JInt 7), (ascii ''data'', JList [JInt 0, JNull, JStr [], JInt (-12), JList [JStr (ascii ''a''), JNull]])])) =
   Inr (ascii ''-12'' @ [12289] @ ascii ''['' @ [39, 97, 39] @ ascii '', None]'')"
  by code_simp

lemma extract_example_non_ascii:
  "extract_anniversary_text sample_printable
     (json_response (JDict [(ascii ''foo'', JStr [233, 34])])) =
   Inr (ascii ''{'' @ [34] @ ascii ''foo'' @ [34] @ ascii '': '' @ [34, 233, 92, 34, 34] @ ascii ''}'')"
  by code_simp


subsection \<open>Text that can be encoded\<close>

lemma utf8_encodable_Nil [simp]: "utf8_encodable []"
  by (simp add: utf8_encodable_def)

lemma utf8_encodable_Cons [simp]:
  "utf8_encodable (c # s) \<longleftrightarrow> \<not> is_surrogate c \<and> utf8_encodable s"
  by (simp add: utf8_encodable_def)

lemma utf8_encodable_append [simp]:
  "utf8_encodable (s @ t) \<longleftrightarrow> utf8_encodable s \<and> utf8_encodable t"
  by (simp add: utf8_encodable_def)

lemma utf8_encodable_concat:
  "utf8_encodable (concat xs) \<longleftrightarrow> list_all utf8_encodable xs"
  by (induction xs) simp_all

lemma utf8_encodable_take: "utf8_encodable s \<Longrightarrow> utf8_encodable (take n s)"
  by (simp add: utf8_encodable_def list_all_iff) (meson in_set_takeD)

lemma small_not_surrogate: "c < 55296 \<Longrightarrow> \<not> is_surrogate c"
  by (simp add: is_surrogate_def)

lemma utf8_encodable_small: "list_all (\<lambda>c. c < 55296) s \<Longrightarrow> utf8_encodable s"
  by (induction s) (simp_all add: small_not_surrogate)

lemma of_char_small: "(of_char (c::char) :: nat) < 55296"
proof -
  have "(of_char c :: nat) mod 256 < 256" by (rule mod_less_divisor) simp
  then have "(of_char c :: nat) < 256" by (simp only: of_char_mod_256)
  also have "(256::nat) < 55296" by simp
  finally show ?thesis .
qed

lemma utf8_encodable_ascii [simp]: "utf8_encodable (ascii s)"
  by (induction s) (simp_all add: ascii_def small_not_surrogate of_char_small)

lemma nat_digits_small: "list_all (\<lambda>c. c < 58) (nat_digits n)"
proof (induction n rule: nat_digits.induct)
  case (1 n)
  show ?case
  proof (cases "n < 10")
    case True
    then show ?thesis by (simp add: nat_digits.simps)
  next
    case False
    with 1 have "list_all (\<lambda>c. c < 58) (nat_digits (n div 10))" by simp
    moreover have "48 + n mod 10 < 58" by simp
    ultimately show ?thesis using False
      by (subst nat_digits.simps) simp
  qed
qed

lemma utf8_encodable_nat_digits [simp]: "utf8_encodable (nat_digits n)"
proof -
  have "list_all (\<lambda>c. c < 55296) (nat_digits n)"
    using nat_digits_small [of n] by (auto simp: list_all_iff)
  then show ?thesis by (rule utf8_encodable_small)
qed

lemma utf8_encodable_str_int [simp]: "utf8_encodable (str_int i)"
  by (simp add: str_int_def is_surrogate_def)

lemma utf8_encodable_fmt_02d [simp]: "utf8_encodable (fmt_02d i)"
proof -
  have "utf8_encodable (replicate n 48)" for n
    by (induction n) (simp_all add: is_surrogate_def)
  then show ?thesis by (simp add: fmt_02d_def Let_def)
qed

lemma utf8_encodable_date_key [simp]: "utf8_encodable (date_key_of m d)"
  by (simp add: date_key_of_def)

lemma utf8_encodable_marks [simp]: "utf8_encodable mark_ok" "utf8_encodable mark_failed"
  by (simp_all add: mark_ok_def mark_failed_def is_surrogate_def)

lemma print_failure_line:
  "py_print (mark_failed @ date_key_of m d @ ascii '': '' @ ascii e) = Inr ()"
  by (simp add: py_print_def)

lemma utf8_encodable_display_text:
  "utf8_encodable t \<Longrightarrow> utf8_encodable (display_text t)"
  by (simp add: display_text_def utf8_encodable_take)

lemma print_success_line:
  "py_print (mark_ok @ date_key_of m d @ ascii '': '' @ display_text t) =
     (if utf8_encodable (display_text t) then Inr () else Inl UnicodeEncodeError)"
  by (simp add: py_print_def)

lemma print_all_encodable:
  "list_all utf8_encodable ls \<Longrightarrow> print_all ls = (Inr (), ls)"
  by (induction ls) (simp_all add: py_print_def)

lemma print_all_outcome:
  "fst (print_all ls) = Inr () \<or> fst (print_all ls) = Inl UnicodeEncodeError"
  by (induction ls) (auto simp: py_print_def)

lemma print_all_prefix: "snd (print_all ls) = takeWhile utf8_encodable ls"
  by (induction ls) (simp_all add: py_print_def)

lemma print_all_raises_iff:
  "fst (print_all ls) = Inr () \<longleftrightarrow> list_all utf8_encodable ls"
  by (induction ls) (simp_all add: py_print_def)


subsection \<open>One fetch\<close>

lemma fetch_try_cases:
  "(\<exists>t. fetch_try pr outcome = Inr t) \<or> (\<exists>e. fetch_try pr outcome = Inl (RequestException e))"
proof (cases outcome)
  case (GetRaises msg)
  then show ?thesis by (simp add: fetch_try_def)
next
  case (GetReturns r)
  obtain t where "extract_anniversary_text pr r = Inr t"
    using extract_total by blast
  with GetReturns show ?thesis
    by (simp add: fetch_try_def raise_for_status_def)
qed

lemma fetch_single_date_success:
  assumes "fetch_try pr (fst (net w (base_url f @ ascii ''/'' @ mmdd_of m d))) = Inr t"
  shows "fetch_single_date pr net m d (f, w) =
     (if utf8_encodable (display_text t)
      then (Inr True, fetch_ok f (date_key_of m d) t, snd (net w (base_url f @ ascii ''/'' @ mmdd_of m d)))
      else (Inl UnicodeEncodeError, fetch_stored f (date_key_of m d) t,
            snd (net w (base_url f @ ascii ''/'' @ mmdd_of m d))))"
  using assms
  by (simp add: fetch_single_date_def Let_def print_success_line fetch_ok_def fetch_stored_def)

lemma fetch_single_date_failure:
  assumes "fetch_try pr (fst (net w (base_url f @ ascii ''/'' @ mmdd_of m d))) = Inl (RequestException e)"
  shows "fetch_single_date pr net m d (f, w) =
     (Inr False, fetch_failed f (date_key_of m d) e, snd (net w (base_url f @ ascii ''/'' @ mmdd_of m d)))"
  using assms
  by (simp add: fetch_single_date_def Let_def print_failure_line fetch_failed_def)

lemma fetch_single_date_cases:
  "(\<exists>t. utf8_encodable (display_text t) \<and> fetch_single_date pr net m d (f, w) =
         (Inr True, fetch_ok f (date_key_of m d) t, snd (net w (base_url f @ ascii ''/'' @ mmdd_of m d)))) \<or>
   (\<exists>t. \<not> utf8_encodable (display_text t) \<and> fetch_single_date pr net m d (f, w) =
         (Inl UnicodeEncodeError, fetch_stored f (date_key_of m d) t,
          snd (net w (base_url f @ ascii ''/'' @ mmdd_of m d)))) \<or>
   (\<exists>e. fetch_single_date pr net m d (f, w) =
         (Inr False, fetch_failed f (date_key_of m d) e, snd (net w (base_url f @ ascii ''/'' @ mmdd_of m d))))"
proof -
  from fetch_try_cases [of pr "fst (net w (base_url f @ ascii ''/'' @ mmdd_of m d))"]
  show ?thesis
  proof
    assume "\<exists>t. fetch_try pr (fst (net w (base_url f @ ascii ''/'' @ mmdd_of m d))) = Inr t"
    then obtain t where "fetch_try pr (fst (net w (base_url f @ ascii ''/'' @ mmdd_of m d))) = Inr t"
      by blast
    from fetch_single_date_success [where pr = pr and net = net and w = w and f = f and m = m
        and d = d and t = t, OF this] show ?thesis
      by (cases "utf8_encodable (display_text t)") auto
  next
    assume "\<exists>e. fetch_try pr (fst (net w (base_url f @ ascii ''/'' @ mmdd_of m d))) =
      Inl (RequestException e)"
    then obtain e where "fetch_try pr (fst (net w (base_url f @ ascii ''/'' @ mmdd_of m d))) =
      Inl (RequestException e)"
      by blast
    from fetch_single_date_failure [where pr = pr and net = net and w = w and f = f and m = m
        and d = d and e = e, OF this] show ?thesis by blast
  qed
qed

lemma failures_empty_ok:
  assumes "failures_empty f" "k \<notin> fst ` set (data f)"
  shows "failures_empty (fetch_ok f k t)"
proof -
  have "map_of (AList.update k t (data f)) (take 5 e) = Some []"
    if "map_of (data f) (take 5 e) = Some []" for e
  proof -
    from that have "take 5 e \<in> fst ` set (data f)"
      by (metis map_of_eq_None_iff option.distinct(1))
    with assms(2) have "take 5 e \<noteq> k" by auto
    with that show ?thesis by (simp add: update_conv')
  qed
  with assms(1) show ?thesis
    by (simp add: failures_empty_def fetch_ok_def list_all_iff)
qed

lemma failures_empty_failed:
  assumes "failures_empty f" "k \<notin> fst ` set (data f)" "length k = 5"
  shows "failures_empty (fetch_failed f k msg)"
proof -
  have "map_of (AList.update k [] (data f)) (take 5 e) = Some []"
    if "map_of (data f) (take 5 e) = Some []" for e
    using that by (simp add: update_conv')
  moreover have "map_of (AList.update k [] (data f)) (take 5 (k @ ascii '': '' @ ascii msg)) = Some []"
    using assms(3) by (simp add: update_conv')
  ultimately show ?thesis
    using assms(1) by (simp add: failures_empty_def fetch_failed_def list_all_iff)
qed

lemma keys_fetch_ok:
  "k \<notin> fst ` set (data f) \<Longrightarrow> map fst (data (fetch_ok f k t)) = map fst (data f) @ [k]"
  by (simp add: fetch_ok_def update_keys)

lemma keys_fetch_stored:
  "k \<notin> fst ` set (data f) \<Longrightarrow> map fst (data (fetch_stored f k t)) = map fst (data f) @ [k]"
  by (simp add: fetch_stored_def update_keys)

lemma keys_fetch_failed:
  "k \<notin> fst ` set (data f) \<Longrightarrow> map fst (data (fetch_failed f k e)) = map fst (data f) @ [k]"
  by (simp add: fetch_failed_def update_keys)

lemma one_more_ok:
  assumes "failures_empty f" "errors_encodable f" "k \<notin> fst ` set (data f)"
  shows "one_more f k (fetch_ok f k t)"
  unfolding one_more_def
  using assms by (simp add: keys_fetch_ok failures_empty_ok) (simp add: fetch_ok_def errors_encodable_def)

lemma one_more_failed:
  assumes "failures_empty f" "errors_encodable f" "k \<notin> fst ` set (data f)" "length k = 5"
    "utf8_encodable k"
  shows "one_more f k (fetch_failed f k e)"
  unfolding one_more_def
  using assms by (simp add: keys_fetch_failed failures_empty_failed)
    (simp add: fetch_failed_def errors_encodable_def)

text \<open>
  A fetch of a new date either returns, and then the fetcher has one entry and one count
  more, or its progress line cannot be printed, and then only the entry is there.
\<close>

lemma fetch_single_date_step:
  assumes "failures_empty f" "errors_encodable f" "date_key_of m d \<notin> fst ` set (data f)"
    "length (date_key_of m d) = 5"
  shows "\<exists>out f' w'. fetch_single_date pr net m d (f, w) = (out, f', w') \<and>
           map fst (data f') = map fst (data f) @ [date_key_of m d] \<and>
           (((out = Inr True \<or> out = Inr False) \<and> one_more f (date_key_of m d) f') \<or>
            out = Inl UnicodeEncodeError)"
proof -
  let ?k = "date_key_of m d"
  have ok: "one_more f ?k (fetch_ok f ?k t)" for t
    using assms(1-3) by (rule one_more_ok)
  have failed: "one_more f ?k (fetch_failed f ?k e)" for e
    using assms by (intro one_more_failed) simp_all
  have k1: "map fst (data (fetch_ok f ?k t)) = map fst (data f) @ [?k]" for t
    using assms(3) by (rule keys_fetch_ok)
  have k2: "map fst (data (fetch_stored f ?k t)) = map fst (data f) @ [?k]" for t
    using assms(3) by (rule keys_fetch_stored)
  have k3: "map fst (data (fetch_failed f ?k e)) = map fst (data f) @ [?k]" for e
    using assms(3) by (rule keys_fetch_failed)
  from fetch_single_date_cases [of pr net m d f w] show ?thesis
    using ok failed k1 k2 k3 by metis
qed

subsection \<open>The loop\<close>

lemma fetch_loop_dates:
  "loop_dates n cur = Inr ds \<Longrightarrow> fetch_loop pr net n cur s = fetch_dates pr net ds s"
proof (induction n arbitrary: cur ds s)
  case 0
  then show ?case by simp
next
  case (Suc n)
  from Suc.prems obtain nxt ds' where a: "advance cur = Inr nxt"
    and l: "loop_dates n nxt = Inr ds'" and ds: "ds = (month cur, day cur) # ds'"
    by (auto split: sum.splits)
  have "fetch_loop pr net n nxt s' = fetch_dates pr net ds' s'" for s'
    using Suc.IH [OF l] .
  with a ds show ?case by (simp split: prod.splits sum.splits)
qed


lemma fetch_dates_inv:
  assumes "list_all in_range ds" "distinct (map key_of ds)"
    "set (map key_of ds) \<inter> fst ` set (data f) = {}" "failures_empty f" "errors_encodable f"
  shows "\<exists>out f' w'. fetch_dates pr net ds (f, w) = (out, f', w') \<and>
           ((out = Inr () \<and>
             map fst (data f') = map fst (data f) @ map key_of ds \<and>
             success_count f' + int (length (errors f')) =
               success_count f + int (length (errors f)) + int (length ds) \<and>
             failures_empty f' \<and> errors_encodable f' \<and> base_url f' = base_url f) \<or>
            (out = Inl UnicodeEncodeError \<and>
             (\<exists>n<length ds. map fst (data f') = map fst (data f) @ map key_of (take (Suc n) ds))))"
  using assms
proof (induction ds arbitrary: f w)
  case Nil
  then show ?case by simp
next
  case (Cons md ds)
  let ?k = "key_of md"
  from Cons.prems have new: "?k \<notin> fst ` set (data f)" and len: "length ?k = 5"
    by (auto simp: length_date_key)
  from fetch_single_date_step [OF Cons.prems(4) Cons.prems(5) new len, where pr = pr and net = net and w = w]
  obtain out1 f1 w1 where step: "fetch_single_date pr net (fst md) (snd md) (f, w) = (out1, f1, w1)"
    and keys1: "map fst (data f1) = map fst (data f) @ [?k]"
    and alt: "((out1 = Inr True \<or> out1 = Inr False) \<and> one_more f ?k f1) \<or> out1 = Inl UnicodeEncodeError"
    by blast
  from alt show ?case
  proof
    assume r: "out1 = Inl UnicodeEncodeError"
    then have "fetch_dates pr net (md # ds) (f, w) = (Inl UnicodeEncodeError, f1, w1)"
      using step by simp
    moreover have "map fst (data f1) = map fst (data f) @ map key_of (take (Suc 0) (md # ds))"
      using keys1 by simp
    ultimately show ?thesis by auto
  next
    assume ret: "(out1 = Inr True \<or> out1 = Inr False) \<and> one_more f ?k f1"
    then have om: "one_more f ?k f1" by simp
    from om have cnt1: "success_count f1 + int (length (errors f1)) =
        success_count f + int (length (errors f)) + 1"
      and fe1: "failures_empty f1" and ee1: "errors_encodable f1" and bu1: "base_url f1 = base_url f"
      by (simp_all add: one_more_def)
    have "fst ` set (data f1) = set (map fst (data f1))" by simp
    also have "\<dots> = insert ?k (fst ` set (data f))" by (simp add: keys1)
    finally have dom1: "fst ` set (data f1) = insert ?k (fst ` set (data f))" .
    have disj1: "set (map key_of ds) \<inter> fst ` set (data f1) = {}"
      using Cons.prems(2,3) by (auto simp: dom1)
    from Cons.prems have r: "list_all in_range ds" and dd: "distinct (map key_of ds)"
      by simp_all
    from ret step have unfold: "fetch_dates pr net (md # ds) (f, w) = fetch_dates pr net ds (f1, w1)"
      by auto
    from Cons.IH [OF r dd disj1 fe1 ee1, where w = w1]
    obtain out f' w' where rest: "fetch_dates pr net ds (f1, w1) = (out, f', w')"
      and alt': "(out = Inr () \<and>
             map fst (data f') = map fst (data f1) @ map key_of ds \<and>
             success_count f' + int (length (errors f')) =
               success_count f1 + int (length (errors f1)) + int (length ds) \<and>
             failures_empty f' \<and> errors_encodable f' \<and> base_url f' = base_url f1) \<or>
            (out = Inl UnicodeEncodeError \<and>
             (\<exists>n<length ds. map fst (data f') = map fst (data f1) @ map key_of (take (Suc n) ds)))"
      by blast
    from alt' show ?thesis
    proof
      assume a: "out = Inr () \<and>
             map fst (data f') = map fst (data f1) @ map key_of ds \<and>
             success_count f' + int (length (errors f')) =
               success_count f1 + int (length (errors f1)) + int (length ds) \<and>
             failures_empty f' \<and> errors_encodable f' \<and> base_url f' = base_url f1"
      then have "map fst (data f') = map fst (data f) @ map key_of (md # ds)"
        using keys1 by simp
      moreover have "success_count f' + int (length (errors f')) =
          success_count f + int (length (errors f)) + int (length (md # ds))"
        using a cnt1 by simp
      ultimately show ?thesis
        using a unfold rest bu1 by simp
    next
      assume b: "out = Inl UnicodeEncodeError \<and>
             (\<exists>n<length ds. map fst (data f') = map fst (data f1) @ map key_of (take (Suc n) ds))"
      then obtain n where n: "n < length ds"
        and kn: "map fst (data f') = map fst (data f1) @ map key_of (take (Suc n) ds)"
        by blast
      have "Suc n < length (md # ds)" using n by simp
      moreover have "map fst (data f') = map fst (data f) @ map key_of (take (Suc (Suc n)) (md # ds))"
        using kn keys1 by simp
      ultimately have "\<exists>n<length (md # ds).
          map fst (data f') = map fst (data f) @ map key_of (take (Suc n) (md # ds))"
        by blast
      with b unfold rest show ?thesis by simp
    qed
  qed
qed

lemma failures_empty_init: "failures_empty AnniversaryFetcher_init"
  by (simp add: failures_empty_def AnniversaryFetcher_init_def)

lemma errors_encodable_init: "errors_encodable AnniversaryFetcher_init"
  by (simp add: errors_encodable_def AnniversaryFetcher_init_def)

lemma summary_prints:
  assumes "errors_encodable f"
  shows "fst (print_all (summary_lines f)) = Inr ()"
proof -
  have "list_all utf8_encodable (summary_lines f)"
    using assms
    by (auto simp: summary_lines_def errors_encodable_def list_all_iff dest: in_set_takeD)
  then show ?thesis by (simp add: print_all_encodable)
qed

text \<open>
  The run on a fresh fetcher: it completes with the whole calendar in the store, or it is
  ended by a progress line that cannot be printed, with a first part of the calendar in
  the store.
\<close>

lemma fetch_all_result:
  "(\<exists>f w. fetch_all_365_days pr net (AnniversaryFetcher_init, w0) = (Inr (), f, w) \<and>
          map fst (data f) = calendar_keys \<and>
          success_count f + int (length (errors f)) = 365 \<and>
          failures_empty f) \<or>
   (\<exists>f w n. fetch_all_365_days pr net (AnniversaryFetcher_init, w0) = (Inl UnicodeEncodeError, f, w) \<and>
          n < 365 \<and> map fst (data f) = take (Suc n) calendar_keys)"
proof -
  have d: "distinct (map key_of non_leap_calendar)"
    using distinct_calendar_keys by (simp add: calendar_keys_def)
  have e: "set (map key_of non_leap_calendar) \<inter> fst ` set (data AnniversaryFetcher_init) = {}"
    by (simp add: AnniversaryFetcher_init_def)
  have loop: "fetch_loop pr net 365 start_date s = fetch_dates pr net non_leap_calendar s" for s
    by (rule fetch_loop_dates [OF loop_dates_calendar])
  from fetch_dates_inv [OF calendar_in_range d e failures_empty_init errors_encodable_init,
      where pr = pr and net = net and w = w0]
  obtain out f w where run: "fetch_dates pr net non_leap_calendar (AnniversaryFetcher_init, w0) = (out, f, w)"
    and alt: "(out = Inr () \<and>
             map fst (data f) = map fst (data AnniversaryFetcher_init) @ map key_of non_leap_calendar \<and>
             success_count f + int (length (errors f)) =
               success_count AnniversaryFetcher_init + int (length (errors AnniversaryFetcher_init)) +
               int (length non_leap_calendar) \<and>
             failures_empty f \<and> errors_encodable f \<and> base_url f = base_url AnniversaryFetcher_init) \<or>
            (out = Inl UnicodeEncodeError \<and>
             (\<exists>n<length non_leap_calendar.
                map fst (data f) = map fst (data AnniversaryFetcher_init) @
                  map key_of (take (Suc n) non_leap_calendar)))"
    by blast
  from alt show ?thesis
  proof
    assume a: "out = Inr () \<and>
             map fst (data f) = map fst (data AnniversaryFetcher_init) @ map key_of non_leap_calendar \<and>
             success_count f + int (length (errors f)) =
               success_count AnniversaryFetcher_init + int (length (errors AnniversaryFetcher_init)) +
               int (length non_leap_calendar) \<and>
             failures_empty f \<and> errors_encodable f \<and> base_url f = base_url AnniversaryFetcher_init"
    then have "fst (print_all (summary_lines f)) = Inr ()" by (simp add: summary_prints)
    with a run have "fetch_all_365_days pr net (AnniversaryFetcher_init, w0) = (Inr (), f, w)"
      by (simp add: fetch_all_365_days_def loop)
    moreover have "map fst (data f) = calendar_keys"
      using a by (simp add: calendar_keys_def AnniversaryFetcher_init_def)
    moreover have "success_count f + int (length (errors f)) = 365"
      using a by (simp add: length_calendar AnniversaryFetcher_init_def)
    ultimately show ?thesis using a by blast
  next
    assume b: "out = Inl UnicodeEncodeError \<and>
             (\<exists>n<length non_leap_calendar.
                map fst (data f) = map fst (data AnniversaryFetcher_init) @
                  map key_of (take (Suc n) non_leap_calendar))"
    then obtain n where n: "n < 365"
      and k: "map fst (data f) = take (Suc n) calendar_keys"
      by (auto simp: length_calendar calendar_keys_def AnniversaryFetcher_init_def take_map)
    from b run have "fetch_all_365_days pr net (AnniversaryFetcher_init, w0) = (Inl UnicodeEncodeError, f, w)"
      by (simp add: fetch_all_365_days_def loop)
    with n k show ?thesis by blast
  qed
qed

lemma fetch_all_completed:
  assumes "fetch_all_365_days pr net (AnniversaryFetcher_init, w0) = (Inr (), f, w)"
  shows "map fst (data f) = calendar_keys \<and>
         success_count f + int (length (errors f)) = 365 \<and> failures_empty f"
  using fetch_all_result [of pr net w0] assms by auto

lemma fetch_all_outcome:
  "fst (fetch_all_365_days pr net (AnniversaryFetcher_init, w0)) = Inr () \<or>
   fst (fetch_all_365_days pr net (AnniversaryFetcher_init, w0)) = Inl UnicodeEncodeError"
  using fetch_all_result [of pr net w0] by auto

subsection \<open>Sorting a dict\<close>

lemma sorted_fst_sort:
  fixes d :: "(pystr \<times> pystr) list"
  shows "sorted (map fst (sort d))"
proof -
  have "sorted_wrt (\<le>) (sort d)" by simp
  then have "sorted_wrt (\<lambda>a b. fst a \<le> fst b) (sort d)"
    by (rule sorted_wrt_mono_rel [rotated]) (auto simp: less_eq_prod_def)
  then show ?thesis by (simp add: sorted_wrt_map)
qed

lemma sort_keys:
  fixes d :: "(pystr \<times> pystr) list"
  assumes "distinct (map fst d)"
  shows "sort (map fst d) = map fst (sort d)"
proof (rule sorted_distinct_set_unique)
  show "sorted (sort (map fst d))" by simp
  show "distinct (sort (map fst d))" using assms by simp
  show "sorted (map fst (sort d))" by (rule sorted_fst_sort)
  show "distinct (map fst (sort d))" using assms
    by (simp add: distinct_map)
  show "set (sort (map fst d)) = set (map fst (sort d))" by simp
qed

lemma distinct_keys_sort:
  fixes d :: "(pystr \<times> pystr) list"
  assumes "distinct (map fst d)"
  shows "distinct (map fst (sort d))"
  using assms sort_keys [OF assms] by (metis distinct_sort)

subsection \<open>The JSON object\<close>

lemma foldl_update_new:
  "distinct (map fst (acc @ items)) \<Longrightarrow>
   foldl (\<lambda>d kv. AList.update (fst kv) (snd kv) d) acc items = acc @ items"
proof (induction items arbitrary: acc)
  case Nil
  then show ?case by simp
next
  case (Cons kv items)
  from Cons.prems have new: "fst kv \<notin> fst ` set acc" by auto
  have upd: "AList.update (fst kv) (snd kv) acc = acc @ [kv]"
    using new by (induction acc) auto
  from Cons.prems have "distinct (map fst ((acc @ [kv]) @ items))" by simp
  from Cons.IH [OF this] upd show ?case by simp
qed

lemma dict_of_items_distinct: "distinct (map fst items) \<Longrightarrow> dict_of_items items = items"
  using foldl_update_new [of "[]" items] by (simp add: dict_of_items_def)

lemma sorted_data_sort:
  "distinct (map fst (data f)) \<Longrightarrow> sorted_data f = sort (data f)"
  by (simp add: sorted_data_def dict_of_items_distinct distinct_keys_sort)

subsection \<open>Lines of the CSV text\<close>

lemma line_count_append [simp]: "line_count (a @ b) = line_count a + line_count b"
  by (simp add: line_count_def)

lemma line_count_Nil [simp]: "line_count [] = 0"
  by (simp add: line_count_def)

lemma line_count_Cons [simp]: "line_count (c # t) = (if c = 10 then 1 else 0) + line_count t"
  by (simp add: line_count_def)

lemma line_count_csv_field: "line_count (csv_field x) = line_count x"
proof -
  have "line_count (concat (map (\<lambda>c. if c = 34 then [34, 34] else [c]) x)) = line_count x"
    by (induction x) simp_all
  then show ?thesis by (simp add: csv_field_def)
qed

lemma line_count_writerow:
  "line_count (csv_writerow [k, v]) = 1 + line_count k + line_count v"
  by (simp add: csv_writerow_def line_count_csv_field)


subsection \<open>Writing the CSV rows\<close>

lemma utf8_encodable_csv_field [simp]: "utf8_encodable (csv_field x) \<longleftrightarrow> utf8_encodable x"
proof -
  have "utf8_encodable (concat (map (\<lambda>c. if c = 34 then [34, 34] else [c]) x)) \<longleftrightarrow> utf8_encodable x"
    by (induction x) (simp_all add: is_surrogate_def)
  then show ?thesis by (simp add: csv_field_def is_surrogate_def)
qed

lemma row_writable_pair:
  "row_writable [k, v] \<longleftrightarrow> utf8_encodable k \<and> utf8_encodable v"
  by (simp add: row_writable_def csv_writerow_def is_surrogate_def)

lemma header_writable: "file_write (csv_writerow [ascii ''date'', ascii ''name'']) = Inr ()"
  using row_writable_pair [of "ascii ''date''" "ascii ''name''"]
  by (simp add: file_write_def row_writable_def)

lemma csv_write_rows_items:
  assumes "distinct (map fst d)" "set items \<subseteq> set d"
  shows "csv_write_rows d (map fst items) =
     (if list_all row_writable (map (\<lambda>kv. [fst kv, snd kv]) items) then Inr ()
      else Inl UnicodeEncodeError,
      takeWhile row_writable (map (\<lambda>kv. [fst kv, snd kv]) items))"
  using assms(2)
proof (induction items)
  case Nil
  then show ?case by simp
next
  case (Cons kv items)
  then have "(fst kv, snd kv) \<in> set d" by simp
  with assms(1) have "map_of d (fst kv) = Some (snd kv)" by simp
  with Cons show ?case
    by (simp add: dict_get_def file_write_def row_writable_def)
qed

lemma save_to_csv_sorted_items:
  assumes "distinct (map fst (data f))"
  shows "save_to_csv WriteOk name f =
     (if list_all row_writable (map (\<lambda>kv. [fst kv, snd kv]) (sort (data f))) then Inr ()
      else Inl UnicodeEncodeError,
      Some (csv_text ([ascii ''date'', ascii ''name''] #
              takeWhile row_writable (map (\<lambda>kv. [fst kv, snd kv]) (sort (data f))))),
      if list_all row_writable (map (\<lambda>kv. [fst kv, snd kv]) (sort (data f)))
      then [msg_csv_saved @ ascii name] else [])"
proof -
  have "csv_write_rows (data f) (map fst (sort (data f))) =
     (if list_all row_writable (map (\<lambda>kv. [fst kv, snd kv]) (sort (data f))) then Inr ()
      else Inl UnicodeEncodeError,
      takeWhile row_writable (map (\<lambda>kv. [fst kv, snd kv]) (sort (data f))))"
    using assms by (intro csv_write_rows_items) simp_all
  then show ?thesis
    by (simp add: save_to_csv_def Let_def header_writable sort_keys [OF assms])
qed

lemma takeWhile_all: "list_all P xs \<Longrightarrow> takeWhile P xs = xs"
  by (induction xs) simp_all

lemma rows_writable_iff:
  "list_all row_writable (map (\<lambda>kv. [fst kv, snd kv]) items) \<longleftrightarrow>
   list_all utf8_encodable (map fst items) \<and> list_all utf8_encodable (map snd items)"
  by (induction items) (auto simp: row_writable_pair)

subsection \<open>Writing the JSON object\<close>

lemma utf8_encodable_hex_fixed [simp]: "utf8_encodable (hex_fixed k n)"
proof -
  have "hex_digit m < 55296" if "m < 16" for m
    using that by (simp add: hex_digit_def)
  then have "list_all (\<lambda>c. c < 55296) (hex_fixed k n)"
    by (simp add: hex_fixed_def list_all_iff)
  then show ?thesis by (rule utf8_encodable_small)
qed

lemma utf8_encodable_json_escape_char [simp]:
  "utf8_encodable (json_escape_char c) \<longleftrightarrow> \<not> is_surrogate c"
  by (simp add: json_escape_char_def is_surrogate_def)

lemma utf8_encodable_encode_basestring [simp]:
  "utf8_encodable (encode_basestring s) \<longleftrightarrow> utf8_encodable s"
proof -
  have "utf8_encodable (concat (map json_escape_char s)) \<longleftrightarrow> utf8_encodable s"
    by (induction s) simp_all
  then show ?thesis by (simp add: encode_basestring_def is_surrogate_def)
qed

lemma write_chunks_closed:
  "write_chunks cs =
     (if list_all utf8_encodable cs then Inr () else Inl UnicodeEncodeError,
      concat (takeWhile utf8_encodable cs))"
  by (induction cs) (simp_all add: file_write_def)

lemma member_chunks_encodable:
  "list_all utf8_encodable (json_member_chunks first d) \<longleftrightarrow>
   list_all utf8_encodable (map fst d) \<and> list_all utf8_encodable (map snd d)"
  by (induction d arbitrary: first) (auto simp: is_surrogate_def)

lemma json_chunks_encodable:
  "list_all utf8_encodable (json_chunks_indent2 d) \<longleftrightarrow>
   list_all utf8_encodable (map fst d) \<and> list_all utf8_encodable (map snd d)"
  by (simp add: json_chunks_indent2_def member_chunks_encodable is_surrogate_def)

lemma save_to_json_encodable:
  assumes "list_all utf8_encodable (map fst (sorted_data f))"
    "list_all utf8_encodable (map snd (sorted_data f))"
  shows "save_to_json WriteOk name f =
     (Inr (), Some (json_dump_indent2 (sorted_data f)), [msg_json_saved @ ascii name])"
proof -
  have "list_all utf8_encodable (json_chunks_indent2 (sorted_data f))"
    using assms by (simp add: json_chunks_encodable)
  then show ?thesis
    by (simp add: save_to_json_def Let_def write_chunks_closed takeWhile_all json_dump_indent2_def)
qed

lemma save_to_json_raises:
  assumes "\<not> (list_all utf8_encodable (map fst (sorted_data f)) \<and>
             list_all utf8_encodable (map snd (sorted_data f)))"
  shows "fst (save_to_json WriteOk name f) = Inl UnicodeEncodeError"
proof -
  have "\<not> list_all utf8_encodable (json_chunks_indent2 (sorted_data f))"
    using assms by (simp add: json_chunks_encodable)
  then show ?thesis
    by (simp add: save_to_json_def Let_def write_chunks_closed)
qed


subsection \<open>A failed request\<close>

lemma fetch_try_request_error:
  "request_error outcome = Some e \<Longrightarrow> fetch_try pr outcome = Inl (RequestException e)"
  by (auto simp: request_error_def fetch_try_def split: get_outcome.splits sum.splits py_exn.splits)

lemma request_error_iff:
  "request_error outcome \<noteq> None \<longleftrightarrow>
     (\<exists>msg. outcome = GetRaises msg) \<or>
     (\<exists>r. outcome = GetReturns r \<and> 400 \<le> status_code r \<and> status_code r < 600)"
  by (cases outcome) (auto simp: request_error_def raise_for_status_def)

lemma request_error_fetch_try:
  "fetch_try pr outcome = Inl (RequestException e) \<Longrightarrow> request_error outcome = Some e"
  by (auto simp: request_error_def fetch_try_def extract_anniversary_text_def
      split: get_outcome.splits sum.splits py_exn.splits)

lemma fetch_single_date_failed:
  assumes "request_error (fst (net w (base_url f @ ascii ''/'' @ mmdd_of m d))) = Some e"
  shows "fetch_single_date pr net m d (f, w) =
     (Inr False, fetch_failed f (date_key_of m d) e, snd (net w (base_url f @ ascii ''/'' @ mmdd_of m d)))"
proof -
  have "fetch_try pr (fst (net w (base_url f @ ascii ''/'' @ mmdd_of m d))) = Inl (RequestException e)"
    using assms by (rule fetch_try_request_error)
  then show ?thesis
    by (simp add: fetch_single_date_def Let_def print_failure_line fetch_failed_def)
qed

lemma mmdd_0101: "mmdd_of 1 1 = ascii ''0101''"
  by code_simp

lemma key_0101: "date_key_of 1 1 = ascii ''01-01''"
  by code_simp

lemma advance_start: "advance start_date = Inr \<lparr>year = 2024, month = 1, day = 2\<rparr>"
  by (simp add: advance_def add_one_day_def start_date_def days_in_month_def)

subsection \<open>The counters\<close>


subsection \<open>Networks that answer every request alike\<close>

lemma update_new: "k \<notin> fst ` set al \<Longrightarrow> AList.update k v al = al @ [(k, v)]"
  by (induction al) auto

lemma fetch_single_date_constant:
  assumes "fst (net w (base_url f @ ascii ''/'' @ mmdd_of m d)) = outcome"
    and "date_key_of m d \<notin> fst ` set (data f)"
    and "utf8_encodable (display_text (stored_text pr outcome))"
  shows "\<exists>ok f' w'. fetch_single_date pr net m d (f, w) = (Inr ok, f', w') \<and>
           data f' = data f @ [(date_key_of m d, stored_text pr outcome)] \<and>
           errors f' = errors f @
             (case request_error outcome of
                None \<Rightarrow> [] | Some e \<Rightarrow> [date_key_of m d @ ascii '': '' @ ascii e]) \<and>
           base_url f' = base_url f"
proof (cases "request_error outcome")
  case (Some e)
  then have ft: "fetch_try pr outcome = Inl (RequestException e)"
    by (rule fetch_try_request_error)
  have "fetch_single_date pr net m d (f, w) =
      (Inr False, fetch_failed f (date_key_of m d) e, snd (net w (base_url f @ ascii ''/'' @ mmdd_of m d)))"
    using Some assms(1) by (intro fetch_single_date_failed) simp
  with Some ft assms(2) show ?thesis
    by (auto simp: fetch_failed_def stored_text_def update_new)
next
  case None
  from fetch_try_cases [of pr outcome]
  show ?thesis
  proof
    assume "\<exists>t. fetch_try pr outcome = Inr t"
    then obtain t where t: "fetch_try pr outcome = Inr t" by blast
    then have st: "stored_text pr outcome = t" by (simp add: stored_text_def)
    have "fetch_try pr (fst (net w (base_url f @ ascii ''/'' @ mmdd_of m d))) = Inr t"
      using t assms(1) by simp
    from fetch_single_date_success [where pr = pr and net = net and w = w and f = f and m = m
        and d = d and t = t, OF this]
    have "fetch_single_date pr net m d (f, w) =
      (Inr True, fetch_ok f (date_key_of m d) t, snd (net w (base_url f @ ascii ''/'' @ mmdd_of m d)))"
      using assms(3) st by simp
    with None st assms(2) show ?thesis
      by (auto simp: fetch_ok_def update_new)
  next
    assume "\<exists>e. fetch_try pr outcome = Inl (RequestException e)"
    then obtain e where "fetch_try pr outcome = Inl (RequestException e)" by blast
    then have "request_error outcome = Some e" by (rule request_error_fetch_try)
    with None show ?thesis by simp
  qed
qed

lemma fetch_dates_constant:
  assumes "\<And>w u. fst (net w u) = outcome"
    and "utf8_encodable (display_text (stored_text pr outcome))"
    and "distinct (map key_of ds)"
    and "set (map key_of ds) \<inter> fst ` set (data f) = {}"
  shows "\<exists>f' w'. fetch_dates pr net ds (f, w) = (Inr (), f', w') \<and>
           data f' = data f @ map (\<lambda>md. (key_of md, stored_text pr outcome)) ds \<and>
           errors f' = errors f @
             (case request_error outcome of
                None \<Rightarrow> [] | Some e \<Rightarrow> map (\<lambda>md. key_of md @ ascii '': '' @ ascii e) ds)"
  using assms(3,4)
proof (induction ds arbitrary: f w)
  case Nil
  then show ?case by (simp split: option.splits)
next
  case (Cons md ds)
  from Cons.prems have new: "key_of md \<notin> fst ` set (data f)" by auto
  have o1: "fst (net w (base_url f @ ascii ''/'' @ mmdd_of (fst md) (snd md))) = outcome"
    by (rule assms(1))
  from fetch_single_date_constant [where net = net and w = w and f = f and m = "fst md"
      and d = "snd md" and outcome = outcome and pr = pr, OF o1 new assms(2)]
  obtain ok f1 w1 where step: "fetch_single_date pr net (fst md) (snd md) (f, w) = (Inr ok, f1, w1)"
    and d1: "data f1 = data f @ [(key_of md, stored_text pr outcome)]"
    and e1: "errors f1 = errors f @
             (case request_error outcome of
                None \<Rightarrow> [] | Some e \<Rightarrow> [key_of md @ ascii '': '' @ ascii e])"
    by blast
  have disj: "set (map key_of ds) \<inter> fst ` set (data f1) = {}"
    using Cons.prems by (auto simp: d1)
  from Cons.prems have dd: "distinct (map key_of ds)" by simp
  from Cons.IH [OF dd disj, where w = w1]
  obtain f' w' where rest: "fetch_dates pr net ds (f1, w1) = (Inr (), f', w')"
    and d': "data f' = data f1 @ map (\<lambda>md. (key_of md, stored_text pr outcome)) ds"
    and e': "errors f' = errors f1 @
             (case request_error outcome of
                None \<Rightarrow> [] | Some e \<Rightarrow> map (\<lambda>md. key_of md @ ascii '': '' @ ascii e) ds)"
    by blast
  have "fetch_dates pr net (md # ds) (f, w) = (Inr (), f', w')"
    using step rest by simp
  then show ?case
    using d' d1 e' e1 by (simp split: option.splits)
qed

lemma fetch_all_constant:
  assumes "\<And>w u. fst (net w u) = outcome"
    and "utf8_encodable (display_text (stored_text pr outcome))"
  shows "\<exists>f w. fetch_all_365_days pr net (AnniversaryFetcher_init, w0) = (Inr (), f, w) \<and>
           data f = map (\<lambda>md. (key_of md, stored_text pr outcome)) non_leap_calendar \<and>
           errors f =
             (case request_error outcome of
                None \<Rightarrow> [] | Some e \<Rightarrow> map (\<lambda>md. key_of md @ ascii '': '' @ ascii e) non_leap_calendar)"
proof -
  have d: "distinct (map key_of non_leap_calendar)"
    using distinct_calendar_keys by (simp add: calendar_keys_def)
  have e: "set (map key_of non_leap_calendar) \<inter> fst ` set (data AnniversaryFetcher_init) = {}"
    by (simp add: AnniversaryFetcher_init_def)
  from fetch_dates_constant [where net = net and outcome = outcome and pr = pr and w = w0,
      OF assms d e]
  obtain f w where run: "fetch_dates pr net non_leap_calendar (AnniversaryFetcher_init, w0) = (Inr (), f, w)"
    and dat: "data f = data AnniversaryFetcher_init @
        map (\<lambda>md. (key_of md, stored_text pr outcome)) non_leap_calendar"
    and err: "errors f = errors AnniversaryFetcher_init @
             (case request_error outcome of
                None \<Rightarrow> [] | Some e \<Rightarrow> map (\<lambda>md. key_of md @ ascii '': '' @ ascii e) non_leap_calendar)"
    by blast
  have loop: "fetch_loop pr net 365 start_date (AnniversaryFetcher_init, w0) = (Inr (), f, w)"
    using run by (simp add: fetch_loop_dates [OF loop_dates_calendar])
  from fetch_all_outcome [of pr net w0] loop
  have "fetch_all_365_days pr net (AnniversaryFetcher_init, w0) = (Inr (), f, w) \<or>
        fetch_all_365_days pr net (AnniversaryFetcher_init, w0) = (Inl UnicodeEncodeError, f, w)"
    by (auto simp: fetch_all_365_days_def)
  moreover have "errors_encodable f"
    by (auto simp: errors_encodable_def err AnniversaryFetcher_init_def list_all_iff
        split: option.splits)
  then have "fst (print_all (summary_lines f)) = Inr ()" by (rule summary_prints)
  ultimately have "fetch_all_365_days pr net (AnniversaryFetcher_init, w0) = (Inr (), f, w)"
    using loop by (simp add: fetch_all_365_days_def)
  with dat err show ?thesis
    by (simp add: AnniversaryFetcher_init_def)
qed


subsection \<open>The exported files after a run\<close>

lemma line_count_header: "line_count (csv_writerow [ascii ''date'', ascii ''name'']) = 1"
  by (simp add: line_count_writerow) (simp add: ascii_def)

lemma line_count_rows:
  "line_count (csv_text (map (\<lambda>kv. [fst kv, snd kv]) items)) =
     length items + sum_list (map (\<lambda>kv. line_count (fst kv) + line_count (snd kv)) items)"
  by (induction items) (simp_all add: csv_text_def line_count_writerow)

lemma line_count_mm_dd: "is_mm_dd k \<Longrightarrow> line_count k = 0"
  by (cases k rule: is_mm_dd.cases) (auto simp: is_digit_def)

lemma sum_list_sort_items:
  fixes d :: "(pystr \<times> pystr) list" and g :: "pystr \<times> pystr \<Rightarrow> nat"
  assumes "distinct (map fst d)"
  shows "sum_list (map g (sort d)) = sum_list (map g d)"
proof -
  from assms have dd: "distinct d" by (simp add: distinct_map)
  then have "distinct (sort d)" by simp
  then have "sum_list (map g (sort d)) = sum g (set (sort d))"
    by (rule sum_list_distinct_conv_sum_set)
  also have "\<dots> = sum g (set d)" by simp
  also have "\<dots> = sum_list (map g d)"
    using dd by (simp add: sum_list_distinct_conv_sum_set)
  finally show ?thesis .
qed

lemma line_count_csv_after_keys:
  assumes "distinct (map fst (data f))" "list_all is_mm_dd (map fst (data f))"
  shows "line_count (csv_text ([ascii ''date'', ascii ''name''] # map (\<lambda>kv. [fst kv, snd kv]) (sort (data f)))) =
     1 + length (data f) + sum_list (map (\<lambda>kv. line_count (snd kv)) (data f))"
proof -
  have k0: "line_count (fst kv) = 0" if "kv \<in> set (data f)" for kv
    using assms(2) that by (auto simp: list_all_iff line_count_mm_dd)
  have "sum_list (map (\<lambda>kv. line_count (fst kv) + line_count (snd kv)) (sort (data f))) =
        sum_list (map (\<lambda>kv. line_count (fst kv) + line_count (snd kv)) (data f))"
    using assms(1) by (rule sum_list_sort_items)
  also have "\<dots> = sum_list (map (\<lambda>kv. line_count (snd kv)) (data f))"
    using k0 by (intro arg_cong [where f = sum_list] map_cong) simp_all
  finally have s: "sum_list (map (\<lambda>kv. line_count (fst kv) + line_count (snd kv)) (sort (data f))) =
        sum_list (map (\<lambda>kv. line_count (snd kv)) (data f))" .
  have "csv_text ([ascii ''date'', ascii ''name''] # map (\<lambda>kv. [fst kv, snd kv]) (sort (data f))) =
        csv_writerow [ascii ''date'', ascii ''name''] @ csv_text (map (\<lambda>kv. [fst kv, snd kv]) (sort (data f)))"
    by (simp add: csv_text_def)
  then show ?thesis
    by (simp only: line_count_append line_count_header line_count_rows s) simp
qed

lemma failed_key_empty:
  assumes "failures_empty f" "length k = 5" "k @ ascii '': '' @ msg \<in> set (errors f)"
  shows "(k, []) \<in> set (data f)"
proof -
  from assms(1,3) have "map_of (data f) (take 5 (k @ ascii '': '' @ msg)) = Some []"
    unfolding failures_empty_def list_all_iff by blast
  with assms(2) have "map_of (data f) k = Some []" by simp
  then show ?thesis by (rule map_of_SomeD)
qed




subsection \<open>Order independence\<close>

lemma sort_items_unique:
  fixes d1 d2 :: "(pystr \<times> pystr) list"
  assumes "distinct (map fst d1)" "distinct (map fst d2)" "map_of d1 = map_of d2"
  shows "sort d1 = sort d2"
proof (rule sorted_distinct_set_unique)
  from assms have s: "set d1 = set d2" by (simp add: map_of_inject_set)
  show "sorted (sort d1)" "sorted (sort d2)" by simp_all
  show "distinct (sort d1)" using assms(1) by (simp add: distinct_map)
  show "distinct (sort d2)" using assms(2) by (simp add: distinct_map)
  show "set (sort d1) = set (sort d2)" using s by simp
qed

lemma sort_store_a:
  "sort (data store_a) = [(ascii ''01-01'', ascii ''a''), (ascii ''01-02'', []), (ascii ''03-01'', ascii ''c'')]"
  by code_simp

lemma map_of_store_a_b: "map_of (data store_a) = map_of (data store_b)"
  by (rule ext) (simp add: store_a_def store_b_def ascii_def)




subsection \<open>The sample listing and the statistics\<close>




lemma sample_display_short: "length t \<le> 80 \<Longrightarrow> sample_display t = t"
  by (simp add: sample_display_def)


lemma print_statistics_exn:
  "snd (print_statistics rate_text self) = (if data self = [] then Some ZeroDivisionError else None)"
  by (simp add: print_statistics_def Let_def)



subsection \<open>Sample runs\<close>

lemma first_day_in_calendar: "(1, 1) \<in> set non_leap_calendar"
  by code_simp

lemma calendar_not_empty: "non_leap_calendar \<noteq> []"
  using length_calendar by auto

lemma net_down_constant: "fst (net_down w u) = GetRaises ''timeout''"
  by (simp add: net_down_def)

lemma net_two_lines_constant: "fst (net_two_lines w u) = GetReturns two_line_response"
  by (simp add: net_two_lines_def)

lemma net_late_surrogate_constant: "fst (net_late_surrogate w u) = GetReturns late_surrogate_response"
  by (simp add: net_late_surrogate_def)

lemma stored_down: "stored_text pr (GetRaises ''timeout'') = []"
  by (simp add: stored_text_def fetch_try_def)

lemma stored_two_lines:
  "stored_text sample_printable (GetReturns two_line_response) =
     ascii ''New Year'' @ [10] @ ascii ''Ganjitsu''"
  by (simp add: stored_text_def fetch_try_def raise_for_status_def two_line_response_def
      extract_anniversary_text_def extract_try_def py_strip_def isspace_def ascii_def)

lemma stored_late_surrogate:
  "stored_text sample_printable (GetReturns late_surrogate_response) = replicate 50 97 @ [55296]"
  by (simp add: stored_text_def fetch_try_def raise_for_status_def late_surrogate_response_def
      json_response_def extract_anniversary_text_def extract_try_def join_names_def)

lemma replicate_a_encodable: "utf8_encodable (replicate n 97)"
  by (induction n) (simp_all add: is_surrogate_def)

lemma display_late_surrogate:
  "utf8_encodable (display_text (replicate 50 97 @ [55296]))"
  by (simp add: display_text_def replicate_a_encodable)

lemma late_surrogate_not_encodable: "\<not> utf8_encodable (replicate 50 97 @ [55296])"
  by (simp add: is_surrogate_def)

lemma line_count_two_lines: "line_count (ascii ''New Year'' @ [10] @ ascii ''Ganjitsu'') = 1"
  by (simp add: ascii_def)

lemma sum_list_const: "sum_list (map (\<lambda>x. c) xs) = length xs * (c::nat)"
  by (induction xs) simp_all

lemma run_net_down:
  "\<exists>f w. fetch_all_365_days pr net_down (AnniversaryFetcher_init, ()) = (Inr (), f, w) \<and>
     data f = map (\<lambda>md. (key_of md, [])) non_leap_calendar \<and>
     errors f = map (\<lambda>md. key_of md @ ascii '': '' @ ascii ''timeout'') non_leap_calendar"
proof -
  have enc: "utf8_encodable (display_text (stored_text pr (GetRaises ''timeout'')))"
    by (simp add: stored_down display_text_def)
  from fetch_all_constant [where net = net_down and outcome = "GetRaises ''timeout''"
      and pr = pr and ?w0.0 = "()", OF net_down_constant enc]
  show ?thesis by (simp add: stored_down request_error_def)
qed

lemma run_net_two_lines:
  "\<exists>f w. fetch_all_365_days sample_printable net_two_lines (AnniversaryFetcher_init, ()) = (Inr (), f, w) \<and>
     data f = map (\<lambda>md. (key_of md, ascii ''New Year'' @ [10] @ ascii ''Ganjitsu'')) non_leap_calendar"
proof -
  have enc: "utf8_encodable (display_text (stored_text sample_printable (GetReturns two_line_response)))"
    by (simp add: stored_two_lines utf8_encodable_display_text is_surrogate_def)
  from fetch_all_constant [where net = net_two_lines and outcome = "GetReturns two_line_response"
      and pr = sample_printable and ?w0.0 = "()", OF net_two_lines_constant enc]
  show ?thesis by (auto simp: stored_two_lines)
qed

lemma run_net_late_surrogate:
  "\<exists>f w. fetch_all_365_days sample_printable net_late_surrogate (AnniversaryFetcher_init, ()) =
       (Inr (), f, w) \<and>
     data f = map (\<lambda>md. (key_of md, replicate 50 97 @ [55296])) non_leap_calendar"
proof -
  have enc: "utf8_encodable (display_text (stored_text sample_printable (GetReturns late_surrogate_response)))"
    by (simp only: stored_late_surrogate display_late_surrogate)
  from fetch_all_constant [where net = net_late_surrogate and outcome = "GetReturns late_surrogate_response"
      and pr = sample_printable and ?w0.0 = "()", OF net_late_surrogate_constant enc]
  show ?thesis by (auto simp: stored_late_surrogate)
qed

lemma keys_of_constant_data:
  "map fst (map (\<lambda>md. (key_of md, t)) non_leap_calendar) = calendar_keys"
  by (simp add: calendar_keys_def comp_def)



subsection \<open>The exports of a completed run\<close>

lemma completed_store:
  assumes "fetch_all_365_days pr net (AnniversaryFetcher_init, w0) = (Inr (), f, w)"
  shows "distinct (map fst (data f)) \<and> list_all is_mm_dd (map fst (data f)) \<and>
         length (data f) = 365 \<and> sorted_data f = sort (data f) \<and>
         map fst (sort (data f)) = calendar_keys \<and>
         list_all utf8_encodable (map fst (sort (data f)))"
proof -
  from fetch_all_completed [OF assms] have keys: "map fst (data f) = calendar_keys" by simp
  have dk: "distinct (map fst (data f))" by (simp only: keys distinct_calendar_keys)
  have mm: "list_all is_mm_dd (map fst (data f))" by (simp only: keys mm_dd_calendar_keys)
  have "length (data f) = length (map fst (data f))" by simp
  also have "\<dots> = 365" by (simp only: keys length_calendar_keys)
  finally have len: "length (data f) = 365" .
  have sd: "sorted_data f = sort (data f)" using dk by (rule sorted_data_sort)
  have "map fst (sort (data f)) = sort (map fst (data f))" using sort_keys [OF dk] by simp
  also have "\<dots> = calendar_keys"
    using sorted_calendar_keys by (simp only: keys sorted_sort_id)
  finally have ks: "map fst (sort (data f)) = calendar_keys" .
  have "list_all utf8_encodable calendar_keys"
    by (simp add: calendar_keys_def list_all_iff)
  with ks have "list_all utf8_encodable (map fst (sort (data f)))" by simp
  with dk mm len sd ks show ?thesis by simp
qed

lemma texts_of_sorted_items:
  fixes d :: "(pystr \<times> pystr) list"
  shows "list_all P (map snd (sort d)) \<longleftrightarrow> list_all P (map snd d)"
  by (simp add: list_all_iff)

text \<open>
  When a stored text of a completed run has a lone surrogate, both exporters raise
  \<open>UnicodeEncodeError\<close>; the CSV file is left with the header and the rows before the first
  one that cannot be encoded.
\<close>

lemma exports_raise_when_not_encodable:
  assumes run: "fetch_all_365_days pr net (AnniversaryFetcher_init, w0) = (Inr (), f, w)"
    and bad: "\<not> list_all utf8_encodable (map snd (data f))"
  shows "save_to_csv WriteOk csv_name f =
           (Inl UnicodeEncodeError,
            Some (csv_text ([ascii ''date'', ascii ''name''] #
                    takeWhile row_writable (map (\<lambda>kv. [fst kv, snd kv]) (sort (data f))))), []) \<and>
         fst (save_to_json WriteOk json_name f) = Inl UnicodeEncodeError"
proof -
  from completed_store [OF run] have dk: "distinct (map fst (data f))"
    and sd: "sorted_data f = sort (data f)" by simp_all
  have b: "\<not> list_all utf8_encodable (map snd (sort (data f)))"
    using bad texts_of_sorted_items [of utf8_encodable "data f"] by blast
  then have "\<not> list_all row_writable (map (\<lambda>kv. [fst kv, snd kv]) (sort (data f)))"
    using rows_writable_iff [of "sort (data f)"] by blast
  then have csv: "save_to_csv WriteOk csv_name f =
           (Inl UnicodeEncodeError,
            Some (csv_text ([ascii ''date'', ascii ''name''] #
                    takeWhile row_writable (map (\<lambda>kv. [fst kv, snd kv]) (sort (data f))))), [])"
    by (simp add: save_to_csv_sorted_items [OF dk])
  have "fst (save_to_json WriteOk json_name f) = Inl UnicodeEncodeError"
    using b by (intro save_to_json_raises) (simp add: sd)
  with csv show ?thesis by simp
qed

section \<open>The claims\<close>











text \<open>
  C5, as amended. For every fetch of a date whose request fails at the network layer
  (\<open>requests.get\<close> raises) or returns a status from 400 to 599, the fetch returns
  \<open>False\<close>, the store entry for that date key is set to the empty string, a failure
  description made of the date key, a colon and the error message is appended to the
  failure list, exactly one request has been made, and the loop continues with the next
  date. (A response with any other status, 2xx or not, is not a failure for
  \<open>raise_for_status\<close>.)
\<close>

theorem failed_fetch_recorded_once:
  assumes "fst (net w (base_url f @ ascii ''/'' @ mmdd_of (month cur) (day cur))) = outcome"
    and "(\<exists>msg. outcome = GetRaises msg) \<or>
         (\<exists>r. outcome = GetReturns r \<and> 400 \<le> status_code r \<and> status_code r < 600)"
  shows "\<exists>e f'. request_error outcome = Some e \<and>
           f' = f\<lparr>errors := errors f @ [date_key_of (month cur) (day cur) @ ascii '': '' @ ascii e],
                  data := AList.update (date_key_of (month cur) (day cur)) [] (data f)\<rparr> \<and>
           fetch_single_date pr net (month cur) (day cur) (f, w) =
             (Inr False, f', snd (net w (base_url f @ ascii ''/'' @ mmdd_of (month cur) (day cur)))) \<and>
           (\<forall>nxt. advance cur = Inr nxt \<longrightarrow>
              fetch_loop pr net (Suc n) cur (f, w) =
              fetch_loop pr net n nxt
                (f', snd (net w (base_url f @ ascii ''/'' @ mmdd_of (month cur) (day cur)))))"
proof -
  from assms(2) obtain e where e: "request_error outcome = Some e"
    using request_error_iff [of outcome] by auto
  let ?f' = "fetch_failed f (date_key_of (month cur) (day cur)) e"
  let ?w' = "snd (net w (base_url f @ ascii ''/'' @ mmdd_of (month cur) (day cur)))"
  have step: "fetch_single_date pr net (month cur) (day cur) (f, w) = (Inr False, ?f', ?w')"
    using e assms(1) by (intro fetch_single_date_failed) simp
  have "fetch_loop pr net (Suc n) cur (f, w) = fetch_loop pr net n nxt (?f', ?w')"
    if "advance cur = Inr nxt" for nxt
    using that step by simp
  with e step show ?thesis
    by (simp add: fetch_failed_def)
qed


theorem failed_fetch_recorded_once_witness:
  "fst (net_down () (base_url AnniversaryFetcher_init @ ascii ''/'' @ mmdd_of (month start_date) (day start_date)))
     = GetRaises ''timeout'' \<and>
   fetch_single_date sample_printable net_down (month start_date) (day start_date) (AnniversaryFetcher_init, ()) =
     (Inr False,
      AnniversaryFetcher_init\<lparr>errors := [ascii ''01-01: timeout''], data := [(ascii ''01-01'', [])]\<rparr>,
      ()) \<and>
   fetch_loop sample_printable net_down (Suc 364) start_date (AnniversaryFetcher_init, ()) =
   fetch_loop sample_printable net_down 364 \<lparr>year = 2024, month = 1, day = 2\<rparr>
     (AnniversaryFetcher_init\<lparr>errors := [ascii ''01-01: timeout''], data := [(ascii ''01-01'', [])]\<rparr>, ())"
proof -
  have h1: "fst (net_down () (base_url AnniversaryFetcher_init @ ascii ''/'' @
      mmdd_of (month start_date) (day start_date))) = GetRaises ''timeout''"
    by (simp add: net_down_def)
  have h2: "(\<exists>msg. GetRaises ''timeout'' = GetRaises msg) \<or>
      (\<exists>r. GetRaises ''timeout'' = GetReturns r \<and> 400 \<le> status_code r \<and> status_code r < 600)"
    by simp
  have re: "request_error (GetRaises ''timeout'') = Some ''timeout''"
    by (simp add: request_error_def)
  have k: "date_key_of (month start_date) (day start_date) = ascii ''01-01''"
    by (simp add: start_date_def key_0101)
  have f': "AnniversaryFetcher_init
      \<lparr>errors := errors AnniversaryFetcher_init @ [ascii ''01-01'' @ ascii '': '' @ ascii ''timeout''],
       data := AList.update (ascii ''01-01'') [] (data AnniversaryFetcher_init)\<rparr> =
     AnniversaryFetcher_init\<lparr>errors := [ascii ''01-01: timeout''], data := [(ascii ''01-01'', [])]\<rparr>"
    by (simp add: AnniversaryFetcher_init_def ascii_def)
  from failed_fetch_recorded_once [where pr = sample_printable and net = net_down and w = "()"
      and f = AnniversaryFetcher_init and cur = start_date
      and outcome = "GetRaises ''timeout''" and n = 364, OF h1 h2]
  show ?thesis
    using h1 by (simp add: re k f' advance_start net_down_def)
qed


text \<open>
  The claim as stated speaks of every non-2xx status. A response with status 300 is
  returned by \<open>requests.get\<close> as it is and passes \<open>raise_for_status\<close>: the fetch returns
  \<open>True\<close>, stores the extracted text and records no failure.
\<close>

theorem non_2xx_status_counts_as_success:
  "fetch_single_date sample_printable net_multiple_choices 1 1 (AnniversaryFetcher_init, ()) =
     (Inr True,
      AnniversaryFetcher_init\<lparr>data := [(ascii ''01-01'', ascii ''choices'')], success_count := 1\<rparr>,
      ())"
  by (simp add: fetch_single_date_def Let_def net_multiple_choices_def multiple_choices_response_def
      fetch_try_def raise_for_status_def extract_anniversary_text_def extract_try_def key_0101
      AnniversaryFetcher_init_def py_strip_def isspace_def py_print_def display_text_def
      is_surrogate_def ascii_def)





text \<open>
  C6, as amended. For every completed run with N failed fetches and 365 - N successes
  whose stored texts can all be encoded as UTF-8 (none has a lone surrogate), the
  exported CSV file has exactly 366 rows (the header row date,name plus 365 data rows),
  which are 366 lines when no stored text contains a line feed and in general 366 plus
  the number of line feeds in the stored texts; the exported JSON object has exactly 365
  keys, the date keys of the calendar in ascending order; and every date key whose fetch
  failed (it starts a failure description) maps to the empty string in both output
  files.
\<close>

theorem exports_after_complete_run:
  assumes run: "fetch_all_365_days pr net (AnniversaryFetcher_init, w0) = (Inr (), f, w)"
    and enc: "list_all utf8_encodable (map snd (data f))"
  shows "\<exists>rows.
     success_count f = 365 - int (length (errors f)) \<and>
     save_to_csv WriteOk csv_name f =
       (Inr (), Some (csv_text rows), [msg_csv_saved @ ascii csv_name]) \<and>
     length rows = 366 \<and>
     rows = [ascii ''date'', ascii ''name''] # map (\<lambda>kv. [fst kv, snd kv]) (sorted_data f) \<and>
     line_count (csv_text rows) = 366 + sum_list (map (\<lambda>kv. line_count (snd kv)) (data f)) \<and>
     save_to_json WriteOk json_name f =
       (Inr (), Some (json_dump_indent2 (sorted_data f)), [msg_json_saved @ ascii json_name]) \<and>
     length (sorted_data f) = 365 \<and> map fst (sorted_data f) = calendar_keys \<and>
     (\<forall>k msg. length k = 5 \<and> k @ ascii '': '' @ msg \<in> set (errors f) \<longrightarrow>
        [k, []] \<in> set rows \<and> map_of (sorted_data f) k = Some [])"
proof -
  from fetch_all_completed [OF run]
  have cnt: "success_count f + int (length (errors f)) = 365"
    and fe: "failures_empty f"
    by simp_all
  from completed_store [OF run]
  have dk: "distinct (map fst (data f))"
    and mm: "list_all is_mm_dd (map fst (data f))"
    and len: "length (data f) = 365"
    and sd: "sorted_data f = sort (data f)"
    and ks: "map fst (sort (data f)) = calendar_keys"
    and ke: "list_all utf8_encodable (map fst (sort (data f)))"
    by blast+
  let ?rows = "[ascii ''date'', ascii ''name''] # map (\<lambda>kv. [fst kv, snd kv]) (sort (data f))"
  have te: "list_all utf8_encodable (map snd (sort (data f)))"
    using enc texts_of_sorted_items [of utf8_encodable "data f"] by blast
  have rw: "list_all row_writable (map (\<lambda>kv. [fst kv, snd kv]) (sort (data f)))"
    using ke te rows_writable_iff [of "sort (data f)"] by blast
  have csv: "save_to_csv WriteOk csv_name f =
      (Inr (), Some (csv_text ?rows), [msg_csv_saved @ ascii csv_name])"
    using rw by (simp add: save_to_csv_sorted_items [OF dk] takeWhile_all)
  have lrows: "length ?rows = 366" using len by simp
  have lines: "line_count (csv_text ?rows) = 366 + sum_list (map (\<lambda>kv. line_count (snd kv)) (data f))"
    using line_count_csv_after_keys [OF dk mm] len by simp
  have json: "save_to_json WriteOk json_name f =
      (Inr (), Some (json_dump_indent2 (sorted_data f)), [msg_json_saved @ ascii json_name])"
    using ke te by (intro save_to_json_encodable) (simp_all only: sd)
  have lsd: "length (sorted_data f) = 365" using sd len by simp
  have ksd: "map fst (sorted_data f) = calendar_keys" using ks by (simp only: sd)
  have failed: "[k, []] \<in> set ?rows \<and> map_of (sorted_data f) k = Some []"
    if "length k = 5 \<and> k @ ascii '': '' @ msg \<in> set (errors f)" for k msg
  proof -
    from that have "(k, []) \<in> set (data f)" using failed_key_empty [OF fe] by blast
    then have m: "(k, []) \<in> set (sort (data f))" by simp
    then have "(\<lambda>kv. [fst kv, snd kv]) (k, []) \<in> (\<lambda>kv. [fst kv, snd kv]) ` set (sort (data f))"
      by (rule imageI)
    then have "[k, []] \<in> set ?rows" by simp
    moreover have "map_of (sort (data f)) k = Some []"
      using m distinct_keys_sort [OF dk] by simp
    ultimately show ?thesis by (simp only: sd)
  qed
  from cnt have sc: "success_count f = 365 - int (length (errors f))" by simp
  have rows_sd: "?rows = [ascii ''date'', ascii ''name''] # map (\<lambda>kv. [fst kv, snd kv]) (sorted_data f)"
    by (simp only: sd)
  have "success_count f = 365 - int (length (errors f)) \<and>
     save_to_csv WriteOk csv_name f =
       (Inr (), Some (csv_text ?rows), [msg_csv_saved @ ascii csv_name]) \<and>
     length ?rows = 366 \<and>
     ?rows = [ascii ''date'', ascii ''name''] # map (\<lambda>kv. [fst kv, snd kv]) (sorted_data f) \<and>
     line_count (csv_text ?rows) = 366 + sum_list (map (\<lambda>kv. line_count (snd kv)) (data f)) \<and>
     save_to_json WriteOk json_name f =
       (Inr (), Some (json_dump_indent2 (sorted_data f)), [msg_json_saved @ ascii json_name]) \<and>
     length (sorted_data f) = 365 \<and> map fst (sorted_data f) = calendar_keys \<and>
     (\<forall>k msg. length k = 5 \<and> k @ ascii '': '' @ msg \<in> set (errors f) \<longrightarrow>
        [k, []] \<in> set ?rows \<and> map_of (sorted_data f) k = Some [])"
    using sc csv lrows lines json lsd ksd failed rows_sd by blast
  then show ?thesis by blast
qed

theorem exports_after_complete_run_witness:
  "\<exists>f w rows.
     fetch_all_365_days sample_printable net_down (AnniversaryFetcher_init, ()) = (Inr (), f, w) \<and>
     list_all utf8_encodable (map snd (data f)) \<and>
     save_to_csv WriteOk ''anniversaries.csv'' f =
       (Inr (), Some (csv_text rows), [msg_csv_saved @ ascii ''anniversaries.csv'']) \<and>
     length rows = 366 \<and> line_count (csv_text rows) = 366 \<and>
     length (ascii ''01-01'') = 5 \<and>
     ascii ''01-01'' @ ascii '': '' @ ascii ''timeout'' \<in> set (errors f) \<and>
     [ascii ''01-01'', []] \<in> set rows \<and>
     map_of (sorted_data f) (ascii ''01-01'') = Some []"
proof -
  from run_net_down [of sample_printable]
  obtain f w where
    run: "fetch_all_365_days sample_printable net_down (AnniversaryFetcher_init, ()) = (Inr (), f, w)"
    and dat: "data f = map (\<lambda>md. (key_of md, [])) non_leap_calendar"
    and errs: "errors f = map (\<lambda>md. key_of md @ ascii '': '' @ ascii ''timeout'') non_leap_calendar"
    by blast
  have enc: "list_all utf8_encodable (map snd (data f))"
    by (simp add: dat list_all_iff)
  have s0: "sum_list (map (\<lambda>kv. line_count (snd kv)) (data f)) = 0"
    by (simp add: dat comp_def)
  from exports_after_complete_run [where csv_name = "''anniversaries.csv''"
      and json_name = "''anniversaries.json''", OF run enc]
  obtain rows where
    csv: "save_to_csv WriteOk ''anniversaries.csv'' f =
       (Inr (), Some (csv_text rows), [msg_csv_saved @ ascii ''anniversaries.csv''])"
    and lr: "length rows = 366"
    and lc: "line_count (csv_text rows) = 366 + sum_list (map (\<lambda>kv. line_count (snd kv)) (data f))"
    and failed: "\<forall>k msg. length k = 5 \<and> k @ ascii '': '' @ msg \<in> set (errors f) \<longrightarrow>
        [k, []] \<in> set rows \<and> map_of (sorted_data f) k = Some []"
    by blast
  have "key_of (1, 1) @ ascii '': '' @ ascii ''timeout'' \<in> set (errors f)"
    unfolding errs using first_day_in_calendar by (simp only: set_map) (rule imageI)
  then have mem: "ascii ''01-01'' @ ascii '': '' @ ascii ''timeout'' \<in> set (errors f)"
    by (simp add: key_0101)
  have l5: "length (ascii ''01-01'') = 5" by (simp add: ascii_def)
  from failed l5 mem have "[ascii ''01-01'', []] \<in> set rows \<and>
      map_of (sorted_data f) (ascii ''01-01'') = Some []"
    by blast
  moreover from lc s0 have "line_count (csv_text rows) = 366" by simp
  ultimately show ?thesis using run enc csv lr l5 mem by blast
qed

text \<open>
  The claim as stated gives the file exactly 366 lines, for every completed run. When
  the server answers every request with a two-line plain-text body, each data row of the
  CSV file spans two lines (the field is quoted), and the file of the completed run has
  731 lines. When it answers every request with the JSON array of one string of fifty
  letters and a lone surrogate, the run completes (the progress lines show the first
  fifty characters) and both exporters raise \<open>UnicodeEncodeError\<close>; the CSV file is left
  with its header row alone.
\<close>

theorem csv_has_more_lines_with_multiline_text:
  "csv_lines_after_run sample_printable net_two_lines () = Some 731 \<and>
   (\<exists>f w. fetch_all_365_days sample_printable net_late_surrogate (AnniversaryFetcher_init, ()) =
            (Inr (), f, w) \<and>
          save_to_csv WriteOk ''anniversaries.csv'' f =
            (Inl UnicodeEncodeError, Some (csv_text [[ascii ''date'', ascii ''name'']]), []) \<and>
          fst (save_to_json WriteOk ''anniversaries.json'' f) = Inl UnicodeEncodeError)"
proof -
  let ?txt = "ascii ''New Year'' @ [10] @ ascii ''Ganjitsu''"
  from run_net_two_lines
  obtain f w where
    run: "fetch_all_365_days sample_printable net_two_lines (AnniversaryFetcher_init, ()) = (Inr (), f, w)"
    and dat: "data f = map (\<lambda>md. (key_of md, ?txt)) non_leap_calendar"
    by blast
  from completed_store [OF run]
  have dk: "distinct (map fst (data f))"
    and mm: "list_all is_mm_dd (map fst (data f))"
    and len: "length (data f) = 365"
    and ke: "list_all utf8_encodable (map fst (sort (data f)))"
    by blast+
  have "sum_list (map (\<lambda>kv. line_count (snd kv)) (data f)) =
        sum_list (map (\<lambda>md. line_count ?txt) non_leap_calendar)"
    by (simp add: dat comp_def)
  also have "\<dots> = 365"
    by (simp only: sum_list_const length_calendar line_count_two_lines)
  finally have s: "sum_list (map (\<lambda>kv. line_count (snd kv)) (data f)) = 365" .
  let ?rows = "[ascii ''date'', ascii ''name''] # map (\<lambda>kv. [fst kv, snd kv]) (sort (data f))"
  have lines: "line_count (csv_text ?rows) = 731"
    using line_count_csv_after_keys [OF dk mm] len s by simp
  have "list_all utf8_encodable (map snd (data f))"
    by (simp add: dat list_all_iff is_surrogate_def)
  then have te: "list_all utf8_encodable (map snd (sort (data f)))"
    using texts_of_sorted_items [of utf8_encodable "data f"] by blast
  have rw: "list_all row_writable (map (\<lambda>kv. [fst kv, snd kv]) (sort (data f)))"
    using ke te rows_writable_iff [of "sort (data f)"] by blast
  have "save_to_csv WriteOk ''anniversaries.csv'' f =
      (Inr (), Some (csv_text ?rows), [msg_csv_saved @ ascii ''anniversaries.csv''])"
    using rw by (simp add: save_to_csv_sorted_items [OF dk] takeWhile_all)
  with run lines have first: "csv_lines_after_run sample_printable net_two_lines () = Some 731"
    by (simp add: csv_lines_after_run_def)
  from run_net_late_surrogate
  obtain g v where
    run2: "fetch_all_365_days sample_printable net_late_surrogate (AnniversaryFetcher_init, ()) =
       (Inr (), g, v)"
    and dat2: "data g = map (\<lambda>md. (key_of md, replicate 50 97 @ [55296])) non_leap_calendar"
    by blast
  have all_bad: "\<not> utf8_encodable (snd kv)" if "kv \<in> set (data g)" for kv
    using that late_surrogate_not_encodable by (auto simp: dat2)
  have ne: "data g \<noteq> []" using calendar_not_empty by (simp add: dat2)
  then obtain kv where kv: "kv \<in> set (data g)" by (cases "data g") auto
  have "\<not> utf8_encodable (snd kv)" using kv by (rule all_bad)
  moreover have "snd kv \<in> set (map snd (data g))"
    using kv by (simp only: set_map) (rule imageI)
  ultimately have bad: "\<not> list_all utf8_encodable (map snd (data g))"
    unfolding list_all_iff by blast
  have "\<not> row_writable r" if "r \<in> set (map (\<lambda>kv. [fst kv, snd kv]) (sort (data g)))" for r
    using that all_bad by (auto simp: row_writable_pair)
  then have "takeWhile row_writable (map (\<lambda>kv. [fst kv, snd kv]) (sort (data g))) = []"
    by (cases "map (\<lambda>kv. [fst kv, snd kv]) (sort (data g))") auto
  with exports_raise_when_not_encodable [OF run2 bad, where csv_name = "''anniversaries.csv''"
      and json_name = "''anniversaries.json''"]
  have "save_to_csv WriteOk ''anniversaries.csv'' g =
            (Inl UnicodeEncodeError, Some (csv_text [[ascii ''date'', ascii ''name'']]), []) \<and>
          fst (save_to_json WriteOk ''anniversaries.json'' g) = Inl UnicodeEncodeError"
    by simp
  with run2 first show ?thesis by blast
qed

text \<open>
  C7. For every store contents, regardless of the order in which the date keys were
  inserted, both exporters emit the keys (CSV rows and JSON object keys) sorted in
  ascending lexical order of date key; the exported output is a function of the mapping
  contents only, not of the insertion order. (A Python \<open>dict\<close> has distinct keys.) The
  CSV file holds the header and the rows of the sorted items, up to the first row that
  cannot be encoded if there is one, and the JSON file the text of the sorted items, up
  to the first piece that cannot be encoded if there is one.
\<close>

theorem exports_sorted_and_order_independent:
  assumes "distinct (map fst (data f1))" and "distinct (map fst (data f2))"
    and "map_of (data f1) = map_of (data f2)"
  shows "save_to_csv WriteOk name f1 =
           (if list_all row_writable (map (\<lambda>kv. [fst kv, snd kv]) (sort (data f1)))
            then Inr () else Inl UnicodeEncodeError,
            Some (csv_text ([ascii ''date'', ascii ''name''] #
                    takeWhile row_writable (map (\<lambda>kv. [fst kv, snd kv]) (sort (data f1))))),
            if list_all row_writable (map (\<lambda>kv. [fst kv, snd kv]) (sort (data f1)))
            then [msg_csv_saved @ ascii name] else []) \<and>
         save_to_json WriteOk name f1 =
           (if list_all utf8_encodable (json_chunks_indent2 (sort (data f1)))
            then Inr () else Inl UnicodeEncodeError,
            Some (concat (takeWhile utf8_encodable (json_chunks_indent2 (sort (data f1))))),
            if list_all utf8_encodable (json_chunks_indent2 (sort (data f1)))
            then [msg_json_saved @ ascii name] else []) \<and>
         sorted_data f1 = sort (data f1) \<and>
         sorted (map fst (sort (data f1))) \<and>
         map fst (sort (data f1)) = sort (map fst (data f1)) \<and>
         save_to_csv io name f1 = save_to_csv io name f2 \<and>
         save_to_json io name f1 = save_to_json io name f2"
proof -
  have s: "sort (data f1) = sort (data f2)" using assms by (rule sort_items_unique)
  have j1: "sorted_data f1 = sort (data f1)" using assms(1) by (rule sorted_data_sort)
  have j2: "sorted_data f2 = sort (data f2)" using assms(2) by (rule sorted_data_sort)
  have c1: "save_to_csv WriteOk name f1 =
           (if list_all row_writable (map (\<lambda>kv. [fst kv, snd kv]) (sort (data f1)))
            then Inr () else Inl UnicodeEncodeError,
            Some (csv_text ([ascii ''date'', ascii ''name''] #
                    takeWhile row_writable (map (\<lambda>kv. [fst kv, snd kv]) (sort (data f1))))),
            if list_all row_writable (map (\<lambda>kv. [fst kv, snd kv]) (sort (data f1)))
            then [msg_csv_saved @ ascii name] else [])"
    using assms(1) by (rule save_to_csv_sorted_items)
  have c2: "save_to_csv WriteOk name f2 = save_to_csv WriteOk name f1"
    by (simp only: save_to_csv_sorted_items [OF assms(1)] save_to_csv_sorted_items [OF assms(2)] s)
  have "save_to_csv io name f1 = save_to_csv io name f2"
  proof (cases io)
    case WriteOk
    then show ?thesis using c2 by simp
  next
    case (WriteFails e)
    then show ?thesis by (simp add: save_to_csv_def)
  qed
  moreover have "save_to_json io name f1 = save_to_json io name f2"
    by (cases io) (simp_all add: save_to_json_def j1 j2 s)
  moreover have "save_to_json WriteOk name f1 =
           (if list_all utf8_encodable (json_chunks_indent2 (sort (data f1)))
            then Inr () else Inl UnicodeEncodeError,
            Some (concat (takeWhile utf8_encodable (json_chunks_indent2 (sort (data f1))))),
            if list_all utf8_encodable (json_chunks_indent2 (sort (data f1)))
            then [msg_json_saved @ ascii name] else [])"
    by (simp add: save_to_json_def Let_def write_chunks_closed j1)
  moreover have "sorted (map fst (sort (data f1)))" by (rule sorted_fst_sort)
  moreover have "map fst (sort (data f1)) = sort (map fst (data f1))"
    using sort_keys [OF assms(1)] by simp
  ultimately show ?thesis using c1 j1 by simp
qed


theorem exports_sorted_and_order_independent_witness:
  "distinct (map fst (data store_a)) \<and> distinct (map fst (data store_b)) \<and>
   map_of (data store_a) = map_of (data store_b) \<and>
   save_to_csv WriteOk ''anniversaries.csv'' store_a =
     (Inr (),
      Some (csv_text [[ascii ''date'', ascii ''name''], [ascii ''01-01'', ascii ''a''],
                      [ascii ''01-02'', []], [ascii ''03-01'', ascii ''c'']]),
      [msg_csv_saved @ ascii ''anniversaries.csv'']) \<and>
   sorted_data store_a = [(ascii ''01-01'', ascii ''a''), (ascii ''01-02'', []), (ascii ''03-01'', ascii ''c'')] \<and>
   save_to_csv WriteOk ''anniversaries.csv'' store_a =
     save_to_csv WriteOk ''anniversaries.csv'' store_b \<and>
   save_to_json WriteOk ''anniversaries.json'' store_a =
     save_to_json WriteOk ''anniversaries.json'' store_b"
proof -
  have h1: "distinct (map fst (data store_a))" by (simp add: store_a_def ascii_def)
  have h2: "distinct (map fst (data store_b))" by (simp add: store_b_def ascii_def)
  have rw: "list_all row_writable (map (\<lambda>kv. [fst kv, snd kv]) (sort (data store_a)))"
    by (simp add: sort_store_a row_writable_pair)
  from exports_sorted_and_order_independent [OF h1 h2 map_of_store_a_b, where io = WriteOk
      and name = "''anniversaries.csv''"]
  have a: "save_to_csv WriteOk ''anniversaries.csv'' store_a =
     (if list_all row_writable (map (\<lambda>kv. [fst kv, snd kv]) (sort (data store_a)))
      then Inr () else Inl UnicodeEncodeError,
      Some (csv_text ([ascii ''date'', ascii ''name''] #
              takeWhile row_writable (map (\<lambda>kv. [fst kv, snd kv]) (sort (data store_a))))),
      if list_all row_writable (map (\<lambda>kv. [fst kv, snd kv]) (sort (data store_a)))
      then [msg_csv_saved @ ascii ''anniversaries.csv''] else [])"
    and b: "sorted_data store_a = sort (data store_a)"
    and c: "save_to_csv WriteOk ''anniversaries.csv'' store_a =
       save_to_csv WriteOk ''anniversaries.csv'' store_b"
    by blast+
  from exports_sorted_and_order_independent [OF h1 h2 map_of_store_a_b, where io = WriteOk
      and name = "''anniversaries.json''"]
  have d: "save_to_json WriteOk ''anniversaries.json'' store_a =
       save_to_json WriteOk ''anniversaries.json'' store_b"
    by blast
  have tw: "takeWhile row_writable (map (\<lambda>kv. [fst kv, snd kv]) (sort (data store_a))) =
      map (\<lambda>kv. [fst kv, snd kv]) (sort (data store_a))"
    using rw by (rule takeWhile_all)
  have a': "save_to_csv WriteOk ''anniversaries.csv'' store_a =
     (Inr (),
      Some (csv_text [[ascii ''date'', ascii ''name''], [ascii ''01-01'', ascii ''a''],
                      [ascii ''01-02'', []], [ascii ''03-01'', ascii ''c'']]),
      [msg_csv_saved @ ascii ''anniversaries.csv''])"
    unfolding a tw using rw by (simp add: sort_store_a)
  have b': "sorted_data store_a =
      [(ascii ''01-01'', ascii ''a''), (ascii ''01-02'', []), (ascii ''03-01'', ascii ''c'')]"
    by (simp only: b sort_store_a)
  from h1 h2 map_of_store_a_b a' b' c d show ?thesis by blast
qed







text \<open>
  C10. The statistics-printing operation divides by the total number of store entries
  without a guard: invoked on an empty store (such as the one of a fresh fetcher) it
  raises a division-by-zero error, it raises exactly when the store is empty, and after
  the fetch loop has completed the store holds 365 entries and no error is raised.
\<close>

theorem print_statistics_division:
  "snd (print_statistics rate_text AnniversaryFetcher_init) = Some ZeroDivisionError \<and>
   snd (print_statistics rate_text self) = (if length (data self) = 0 then Some ZeroDivisionError else None) \<and>
   (\<forall>f w. fetch_all_365_days pr net (AnniversaryFetcher_init, w0) = (Inr (), f, w) \<longrightarrow>
          length (data f) = 365 \<and> snd (print_statistics rate_text f) = None)"
proof -
  have "length (data f) = 365 \<and> snd (print_statistics rate_text f) = None"
    if run: "fetch_all_365_days pr net (AnniversaryFetcher_init, w0) = (Inr (), f, w)" for f w
  proof -
    from completed_store [OF run] have len: "length (data f) = 365" by simp
    then have "data f \<noteq> []" by auto
    then have "snd (print_statistics rate_text f) = None"
      by (simp add: print_statistics_exn)
    with len show ?thesis by simp
  qed
  moreover have "snd (print_statistics rate_text AnniversaryFetcher_init) = Some ZeroDivisionError"
    by (simp add: print_statistics_exn AnniversaryFetcher_init_def)
  moreover have "snd (print_statistics rate_text self) =
      (if length (data self) = 0 then Some ZeroDivisionError else None)"
    by (simp add: print_statistics_exn)
  ultimately show ?thesis by blast
qed

theorem print_statistics_division_witness:
  "\<exists>f w. fetch_all_365_days sample_printable net_down (AnniversaryFetcher_init, ()) = (Inr (), f, w) \<and>
         length (data f) = 365 \<and> snd (print_statistics (\<lambda>a b. []) f) = None"
proof -
  from run_net_down [of sample_printable]
  obtain f w where
    run: "fetch_all_365_days sample_printable net_down (AnniversaryFetcher_init, ()) = (Inr (), f, w)"
    by blast
  from print_statistics_division [where pr = sample_printable and net = net_down
      and ?w0.0 = "()" and rate_text = "\<lambda>a b. []"] run
  have "length (data f) = 365 \<and> snd (print_statistics (\<lambda>a b. []) f) = None" by blast
  with run show ?thesis by blast
qed

end
